theory Spec2Isabelle
  imports Complex_Main "HOL-Library.Log_Nat"
begin

section \<open>JavaScript numbers\<close>

text \<open>
  Every number of \<^verbatim>\<open>src/app/page.tsx\<close> is an IEEE 754 binary64 value. A number is
  modelled as NaN, one of the two infinities, or a finite value carried as the exact
  rational it denotes. Arithmetic computes the exact rational result and rounds it to
  binary64 (round to nearest, ties to even, overflow to an infinity), so that overflow
  and rounding are those of the program.

  The sign of zero is not tracked: \<open>Fin 0\<close> stands for both zeros. No operation of
  the modelled code tells them apart (both are falsy, they compare equal, JSON
  writes both as \<^verbatim>\<open>0\<close>, and no modelled division has a zero divisor that was not
  excluded by a guard before).
\<close>

datatype jsnum = NaN | PInf | NInf | Fin rat

definition pow2 :: "int \<Rightarrow> rat" where
  "pow2 e = 2 powi e"

text \<open>\<open>ilog2 q\<close> is the binary exponent \<open>\<lfloor>log\<^sub>2 q\<rfloor>\<close> of a positive rational.\<close>

definition ilog2 :: "rat \<Rightarrow> int" where
  "ilog2 q = (let d = bitlen (fst (quotient_of q)) - bitlen (snd (quotient_of q))
              in if pow2 d \<le> q then d else d - 1)"

definition round_half_even :: "rat \<Rightarrow> int" where
  "round_half_even x =
     (let f = \<lfloor>x\<rfloor>; d = x - of_int f
      in if d < 1 / 2 then f else if 1 / 2 < d then f + 1
         else if even f then f else f + 1)"

text \<open>
  Rounding of a positive rational to binary64: 53 significant bits, the exponent
  bounded below by the subnormal range, and a result of magnitude \<open>2\<^sup>1\<^sup>0\<^sup>2\<^sup>4\<close> or more
  replaced by infinity.
\<close>

definition round_pos :: "rat \<Rightarrow> jsnum" where
  "round_pos q =
     (let e = max (ilog2 q) (- 1022);
          ulp = pow2 (e - 52);
          y = of_int (round_half_even (q / ulp)) * ulp
      in if pow2 1024 \<le> y then PInf else Fin y)"

fun js_neg :: "jsnum \<Rightarrow> jsnum" where
  "js_neg NaN = NaN"
| "js_neg PInf = NInf"
| "js_neg NInf = PInf"
| "js_neg (Fin q) = Fin (- q)"

definition round_double :: "rat \<Rightarrow> jsnum" where
  "round_double q =
     (if q = 0 then Fin 0 else if 0 < q then round_pos q else js_neg (round_pos (- q)))"

text \<open>The operators \<^verbatim>\<open>+\<close>, \<^verbatim>\<open>-\<close>, \<^verbatim>\<open>*\<close> and \<^verbatim>\<open>/\<close> on numbers.\<close>

fun js_add :: "jsnum \<Rightarrow> jsnum \<Rightarrow> jsnum" where
  "js_add NaN _ = NaN"
| "js_add _ NaN = NaN"
| "js_add PInf NInf = NaN"
| "js_add NInf PInf = NaN"
| "js_add PInf _ = PInf"
| "js_add NInf _ = NInf"
| "js_add _ PInf = PInf"
| "js_add _ NInf = NInf"
| "js_add (Fin a) (Fin b) = round_double (a + b)"

definition js_sub :: "jsnum \<Rightarrow> jsnum \<Rightarrow> jsnum" where
  "js_sub a b = js_add a (js_neg b)"

text \<open>The sign of a number that is not NaN, as \<open>-1\<close>, \<open>0\<close> or \<open>1\<close>.\<close>

fun js_sign :: "jsnum \<Rightarrow> int" where
  "js_sign NaN = 0"
| "js_sign PInf = 1"
| "js_sign NInf = - 1"
| "js_sign (Fin q) = (if 0 < q then 1 else if q < 0 then - 1 else 0)"

definition signed_inf :: "int \<Rightarrow> jsnum" where
  "signed_inf s = (if s < 0 then NInf else PInf)"

fun js_mul :: "jsnum \<Rightarrow> jsnum \<Rightarrow> jsnum" where
  "js_mul NaN _ = NaN"
| "js_mul _ NaN = NaN"
| "js_mul (Fin a) (Fin b) = round_double (a * b)"
| "js_mul a b =
     (if js_sign a = 0 \<or> js_sign b = 0 then NaN else signed_inf (js_sign a * js_sign b))"

fun js_div :: "jsnum \<Rightarrow> jsnum \<Rightarrow> jsnum" where
  "js_div NaN _ = NaN"
| "js_div _ NaN = NaN"
| "js_div (Fin a) (Fin b) =
     (if b = 0 then (if a = 0 then NaN else signed_inf (js_sign (Fin a)))
      else round_double (a / b))"
| "js_div (Fin a) _ = Fin 0"
| "js_div a (Fin b) = signed_inf (js_sign a * (if b < 0 then - 1 else 1))"
| "js_div _ _ = NaN"

text \<open>The comparisons \<^verbatim>\<open>a > b\<close> and \<^verbatim>\<open>a <= b\<close>: both are false when an operand is NaN.\<close>

fun js_less :: "jsnum \<Rightarrow> jsnum \<Rightarrow> bool" where
  "js_less NaN _ = False"
| "js_less _ NaN = False"
| "js_less PInf _ = False"
| "js_less _ NInf = False"
| "js_less NInf _ = True"
| "js_less _ PInf = True"
| "js_less (Fin a) (Fin b) = (a < b)"

definition js_gt :: "jsnum \<Rightarrow> jsnum \<Rightarrow> bool" where
  "js_gt a b = js_less b a"

fun js_le :: "jsnum \<Rightarrow> jsnum \<Rightarrow> bool" where
  "js_le NaN _ = False"
| "js_le _ NaN = False"
| "js_le a b = (\<not> js_less b a)"

text \<open>\<^verbatim>\<open>Number.isFinite\<close>, \<^verbatim>\<open>Math.max\<close> of two arguments and \<^verbatim>\<open>Math.round\<close>.\<close>

fun isFinite :: "jsnum \<Rightarrow> bool" where
  "isFinite (Fin _) = True"
| "isFinite _ = False"

fun Math_max :: "jsnum \<Rightarrow> jsnum \<Rightarrow> jsnum" where
  "Math_max NaN _ = NaN"
| "Math_max _ NaN = NaN"
| "Math_max a b = (if js_less a b then b else a)"

fun Math_round :: "jsnum \<Rightarrow> jsnum" where
  "Math_round (Fin q) = Fin (of_int \<lfloor>q + 1 / 2\<rfloor>)"
| "Math_round x = x"

text \<open>Truthiness of a number: zero and NaN are falsy.\<close>

fun truthy_num :: "jsnum \<Rightarrow> bool" where
  "truthy_num NaN = False"
| "truthy_num (Fin q) = (q \<noteq> 0)"
| "truthy_num _ = True"

section \<open>Currency conversion\<close>

text \<open>
  \<^verbatim>\<open>function krwToUsd(krw:number, rate:number){
    const normalizedRate = Number(rate);
    if (!Number.isFinite(normalizedRate) || normalizedRate <= 0) return 0;
    return Number(krw) / normalizedRate; }\<close>
  Both parameters are numbers, on which \<^verbatim>\<open>Number\<close> is the identity.
\<close>

definition krwToUsd :: "jsnum \<Rightarrow> jsnum \<Rightarrow> jsnum" where
  "krwToUsd krw rate =
     (let normalizedRate = rate
      in if \<not> isFinite normalizedRate \<or> js_le normalizedRate (Fin 0) then Fin 0
         else js_div krw normalizedRate)"


section \<open>Strings and conversions\<close>

text \<open>
  Strings are lists of 8-bit code units, read as Latin-1; code points above 255 are
  outside the model. \<open>is_ws\<close> is the white space and line terminator class that both
  \<^verbatim>\<open>String.prototype.trim\<close> and the string-to-number conversion strip: TAB, LF, VT,
  FF, CR, SP and NBSP.
\<close>

definition is_ws :: "char \<Rightarrow> bool" where
  "is_ws c = ((of_char c :: int) \<in> {9, 10, 11, 12, 13, 32, 160})"

definition trim :: "string \<Rightarrow> string" where
  "trim s = rev (dropWhile is_ws (rev (dropWhile is_ws s)))"

text \<open>\<^verbatim>\<open>String.prototype.toLowerCase\<close> on Latin-1: A-Z and the accented capitals.\<close>

definition lower_char :: "char \<Rightarrow> char" where
  "lower_char c =
     (let n = (of_char c :: int)
      in if (65 \<le> n \<and> n \<le> 90) \<or> (192 \<le> n \<and> n \<le> 222 \<and> n \<noteq> 215)
         then char_of (n + 32) else c)"

definition toLowerCase :: "string \<Rightarrow> string" where
  "toLowerCase s = map lower_char s"

text \<open>
  The value of a character as a digit of the given base, and the value of a digit
  string; \<open>None\<close> when a character is not a digit of the base.
\<close>

definition digit_val :: "int \<Rightarrow> char \<Rightarrow> int option" where
  "digit_val base c =
     (let n = (of_char c :: int);
          v = (if 48 \<le> n \<and> n \<le> 57 then n - 48
               else if 97 \<le> n \<and> n \<le> 102 then n - 87
               else if 65 \<le> n \<and> n \<le> 70 then n - 55
               else base)
      in if v < base then Some v else None)"

fun digits_val :: "int \<Rightarrow> int \<Rightarrow> string \<Rightarrow> int option" where
  "digits_val base acc [] = Some acc"
| "digits_val base acc (c # cs) =
     (case digit_val base c of
        None \<Rightarrow> None
      | Some d \<Rightarrow> digits_val base (acc * base + d) cs)"

definition is_digit :: "char \<Rightarrow> bool" where
  "is_digit c = (digit_val 10 c \<noteq> None)"

definition dec_val :: "string \<Rightarrow> int" where
  "dec_val ds = foldl (\<lambda>a c. a * 10 + ((of_char c :: int) - 48)) 0 ds"

text \<open>\<open>ExponentPart\<close> after its \<^verbatim>\<open>e\<close>: an optional sign and at least one digit.\<close>

definition parse_exponent :: "string \<Rightarrow> int option" where
  "parse_exponent s =
     (let neg = (s \<noteq> [] \<and> hd s = CHR ''-'');
          ds = (if s \<noteq> [] \<and> (hd s = CHR ''-'' \<or> hd s = CHR ''+'') then tl s else s)
      in if ds = [] then None
         else case digits_val 10 0 ds of
                None \<Rightarrow> None
              | Some n \<Rightarrow> Some (if neg then - n else n))"

text \<open>
  \<open>StrUnsignedDecimalLiteral\<close> without \<^verbatim>\<open>Infinity\<close>: digits, an optional fraction and
  an optional exponent, with a digit before or after the point; its mathematical value.
\<close>

definition parse_unsigned_decimal :: "string \<Rightarrow> rat option" where
  "parse_unsigned_decimal s =
     (let ip = takeWhile is_digit s;
          r1 = dropWhile is_digit s;
          dot = (r1 \<noteq> [] \<and> hd r1 = CHR ''.'');
          fp = (if dot then takeWhile is_digit (tl r1) else []);
          r2 = (if dot then dropWhile is_digit (tl r1) else r1);
          ex = (if r2 = [] then Some 0
                else if hd r2 = CHR ''e'' \<or> hd r2 = CHR ''E'' then parse_exponent (tl r2)
                else None)
      in if ip = [] \<and> fp = [] then None
         else case ex of
                None \<Rightarrow> None
              | Some x \<Rightarrow>
                  Some ((of_int (dec_val ip) + of_int (dec_val fp) / 10 ^ length fp)
                        * 10 powi x))"

text \<open>\<open>NonDecimalIntegerLiteral\<close>: \<^verbatim>\<open>0x\<close>, \<^verbatim>\<open>0o\<close> or \<^verbatim>\<open>0b\<close> and at least one digit.\<close>

definition parse_non_decimal :: "string \<Rightarrow> int option" where
  "parse_non_decimal s =
     (case s of
        z # p # ds \<Rightarrow>
          (if z = CHR ''0'' \<and> ds \<noteq> [] then
             (if p = CHR ''x'' \<or> p = CHR ''X'' then digits_val 16 0 ds
              else if p = CHR ''o'' \<or> p = CHR ''O'' then digits_val 8 0 ds
              else if p = CHR ''b'' \<or> p = CHR ''B'' then digits_val 2 0 ds
              else None)
           else None)
      | _ \<Rightarrow> None)"

text \<open>
  \<^verbatim>\<open>Number(s)\<close> of a string (the standard's StringToNumber): the trimmed string is
  empty (value 0), a non-decimal integer, or a signed decimal literal or \<^verbatim>\<open>Infinity\<close>;
  anything else is NaN. The mathematical value is rounded to binary64.
\<close>

definition StringToNumber :: "string \<Rightarrow> jsnum" where
  "StringToNumber s =
     (let t = trim s
      in if t = [] then Fin 0
         else case parse_non_decimal t of
                Some n \<Rightarrow> round_double (of_int n)
              | None \<Rightarrow>
                  (let neg = (hd t = CHR ''-'');
                       u = (if hd t = CHR ''-'' \<or> hd t = CHR ''+'' then tl t else t)
                   in if u = ''Infinity'' then (if neg then NInf else PInf)
                      else case parse_unsigned_decimal u of
                             None \<Rightarrow> NaN
                           | Some q \<Rightarrow> round_double (if neg then - q else q)))"

text \<open>
  The values a field of an untyped JSON document is modelled to hold: absent, or a JSON
  primitive. Arrays and objects as field values are outside the model.
\<close>

datatype jsval = JUndefined | JNull | JBool bool | JNum jsnum | JStr string

fun truthy :: "jsval \<Rightarrow> bool" where
  "truthy JUndefined = False"
| "truthy JNull = False"
| "truthy (JBool b) = b"
| "truthy (JNum x) = truthy_num x"
| "truthy (JStr s) = (s \<noteq> [])"

fun ToNumber :: "jsval \<Rightarrow> jsnum" where
  "ToNumber JUndefined = NaN"
| "ToNumber JNull = Fin 0"
| "ToNumber (JBool b) = (if b then Fin 1 else Fin 0)"
| "ToNumber (JNum x) = x"
| "ToNumber (JStr s) = StringToNumber s"

text \<open>The operand pattern \<^verbatim>\<open>v || 0\<close>.\<close>

definition or_zero :: "jsval \<Rightarrow> jsval" where
  "or_zero v = (if truthy v then v else JNum (Fin 0))"

text \<open>An operation that may throw: a storage read, for instance.\<close>

datatype 'a io = Throws | Returns 'a


section \<open>The page state\<close>

text \<open>
  The rows as \<^verbatim>\<open>type IncomeRow\<close> and \<^verbatim>\<open>type ExpenseRow\<close> declare them; \<^verbatim>\<open>notes\<close>
  is optional. An amount is any number, NaN and the infinities included.
\<close>

record IncomeRow =
  i_id :: string
  i_date :: string
  i_desc :: string
  i_amount :: jsnum
  i_notes :: "string option"

record ExpenseRow =
  e_id :: string
  e_date :: string
  e_category :: string
  e_desc :: string
  e_amount :: jsnum
  e_notes :: "string option"

datatype ToastType = info | success | error

type_synonym Toast = "string \<times> ToastType"

record IncomeForm =
  fi_date :: string
  fi_desc :: string
  fi_amount :: string
  fi_notes :: string

record ExpenseForm =
  fe_date :: string
  fe_category :: string
  fe_desc :: string
  fe_amount :: string
  fe_notes :: string

text \<open>
  The \<^verbatim>\<open>useState\<close> cells of \<^verbatim>\<open>Page\<close> that the handlers read and write. A handler
  is a function from the state to the new state and the toast it shows.
\<close>

record Page =
  rate :: jsnum
  income :: "IncomeRow list"
  expenses :: "ExpenseRow list"
  categories :: "string list"
  incomeForm :: IncomeForm
  expenseForm :: ExpenseForm

definition RATE_MAX_AGE_MS :: jsnum where
  "RATE_MAX_AGE_MS = Fin (1000 * 60 * 60 * 12)"

definition DEFAULT_CATEGORIES :: "string list" where
  "DEFAULT_CATEGORIES =
     [''Room and Utility'', ''Daily Expense'', ''Borrow Others'', ''Food & Drinks'',
      ''Transportation'', ''Entertainment'', ''Shopping'', ''Other'']"

definition initial_Page :: Page where
  "initial_Page =
     \<lparr>rate = Fin 1388, income = [], expenses = [], categories = DEFAULT_CATEGORIES,
      incomeForm = \<lparr>fi_date = [], fi_desc = [], fi_amount = [], fi_notes = []\<rparr>,
      expenseForm = \<lparr>fe_date = [], fe_category = [], fe_desc = [], fe_amount = [],
                     fe_notes = []\<rparr>\<rparr>"

text \<open>
  \<^verbatim>\<open>function uid(){ return 'id-' + Date.now().toString(36) + '-'
      + Math.random().toString(36).slice(2,8); }\<close>
  The clock and the random digits are the environment's: a call of \<^verbatim>\<open>uid\<close> is given
  the two strings it reads.
\<close>

definition uid :: "string \<times> string \<Rightarrow> string" where
  "uid src = ''id-'' @ fst src @ ''-'' @ snd src"

section \<open>Exchange rate cache\<close>

text \<open>
  The first effect of \<^verbatim>\<open>Page\<close>: the result of \<^verbatim>\<open>localStorage.getItem\<close> (which may
  throw) and the rate in memory give the rate in memory afterwards.
\<close>

definition loadRate :: "string option io \<Rightarrow> jsnum \<Rightarrow> jsnum" where
  "loadRate got current =
     (case got of
        Throws \<Rightarrow> current
      | Returns saved \<Rightarrow>
          (case saved of
             None \<Rightarrow> current
           | Some s \<Rightarrow>
               if s = [] then current
               else let parsed = StringToNumber s
                    in if \<not> isFinite parsed \<or> js_le parsed (Fin 0) then current
                       else parsed))"

text \<open>
  What \<^verbatim>\<open>fetch\<close> and \<^verbatim>\<open>res.json()\<close> give \<^verbatim>\<open>refreshRate\<close>: a rejected request, or a
  response with its \<^verbatim>\<open>ok\<close> flag and its body, the body being unreadable (\<open>None\<close>) or
  holding the value of \<^verbatim>\<open>data?.rates?.USD\<close>.
\<close>

datatype FetchResult = NetworkError | Response bool "jsval option"

datatype RefreshOutcome =
    Persisted jsnum jsnum  \<comment> \<open>rate and time handed to \<^verbatim>\<open>localStorage.setItem\<close>\<close>
  | Discarded              \<comment> \<open>the effect was cancelled\<close>
  | RefreshFailed Toast

definition refreshRate :: "FetchResult \<Rightarrow> bool \<Rightarrow> jsnum \<Rightarrow> jsnum \<Rightarrow> jsnum \<times> RefreshOutcome" where
  "refreshRate fetched cancelled now current =
     (let failed = (if cancelled then (current, Discarded)
                    else (current, RefreshFailed
                      (''Unable to refresh exchange rate. Using the last known value.'', error)))
      in case fetched of
           NetworkError \<Rightarrow> failed
         | Response ok body \<Rightarrow>
             if \<not> ok then failed
             else (case body of
                     None \<Rightarrow> failed
                   | Some usd \<Rightarrow>
                       (let usdPerKrw = ToNumber usd
                        in if \<not> isFinite usdPerKrw \<or> js_le usdPerKrw (Fin 0) then failed
                           else (let krwPerUsd = js_div (Fin 1) usdPerKrw
                                 in if cancelled then (current, Discarded)
                                    else (krwPerUsd, Persisted krwPerUsd now)))))"

text \<open>
  The staleness test of the same effect:
  \<^verbatim>\<open>const lastFetched = Number(localStorage.getItem(RATE_FETCHED_AT_KEY));
  if (!Number.isFinite(lastFetched) || (Date.now() - lastFetched) > RATE_MAX_AGE_MS)\<close>
  with a refresh also when the read throws. \<^verbatim>\<open>getItem\<close> gives \<^verbatim>\<open>null\<close> for a key that
  is not stored.
\<close>

definition Number_of_item :: "string option \<Rightarrow> jsnum" where
  "Number_of_item item = ToNumber (case item of None \<Rightarrow> JNull | Some s \<Rightarrow> JStr s)"

definition shouldRefresh :: "jsnum \<Rightarrow> string option io \<Rightarrow> bool" where
  "shouldRefresh now got =
     (case got of
        Throws \<Rightarrow> True
      | Returns item \<Rightarrow>
          (let lastFetched = Number_of_item item
           in \<not> isFinite lastFetched \<or> js_gt (js_sub now lastFetched) RATE_MAX_AGE_MS))"

section \<open>Totals and category breakdown\<close>

record Totals =
  incomeKRW :: jsnum
  expenseKRW :: jsnum
  remainingKRW :: jsnum
  incomeUSD :: jsnum
  expenseUSD :: jsnum
  remainingUSD :: jsnum

text \<open>\<^verbatim>\<open>Number(r.amount||0)\<close> for the amount of a row.\<close>

definition amount_or_zero :: "jsnum \<Rightarrow> jsnum" where
  "amount_or_zero a = ToNumber (or_zero (JNum a))"

definition totals :: "Page \<Rightarrow> Totals" where
  "totals st =
     (let incomeKRW = foldl (\<lambda>s r. js_add s (amount_or_zero (i_amount r))) (Fin 0) (income st);
          expenseKRW = foldl (\<lambda>s r. js_add s (amount_or_zero (e_amount r))) (Fin 0) (expenses st);
          remainingKRW = js_sub incomeKRW expenseKRW
      in \<lparr>incomeKRW = incomeKRW, expenseKRW = expenseKRW, remainingKRW = remainingKRW,
          incomeUSD = krwToUsd incomeKRW (rate st),
          expenseUSD = krwToUsd expenseKRW (rate st),
          remainingUSD = krwToUsd remainingKRW (rate st)\<rparr>)"

text \<open>
  \<^verbatim>\<open>byCat\<close> is an object literal, so a key it does not own is read from
  \<^verbatim>\<open>Object.prototype\<close>. A slot holds a number, or (\<open>SOther\<close>) an inherited function or
  object or a string that \<^verbatim>\<open>+\<close> made from one: such a value is truthy, converts to NaN,
  and \<^verbatim>\<open>+\<close> with a number concatenates to a string of the same kind. Assigning a
  primitive to \<^verbatim>\<open>__proto__\<close> goes to the inherited setter, which ignores it.
\<close>

datatype slot = SNum jsnum | SOther

definition Object_prototype_keys :: "string list" where
  "Object_prototype_keys =
     [''constructor'', ''__defineGetter__'', ''__defineSetter__'', ''hasOwnProperty'',
      ''__lookupGetter__'', ''__lookupSetter__'', ''isPrototypeOf'',
      ''propertyIsEnumerable'', ''toString'', ''valueOf'', ''__proto__'',
      ''toLocaleString'']"

definition get_prop :: "(string \<rightharpoonup> slot) \<Rightarrow> string \<Rightarrow> slot option" where
  "get_prop obj k =
     (case obj k of
        Some v \<Rightarrow> Some v
      | None \<Rightarrow> if k \<in> set Object_prototype_keys then Some SOther else None)"

definition set_prop :: "(string \<rightharpoonup> slot) \<Rightarrow> string \<Rightarrow> slot \<Rightarrow> (string \<rightharpoonup> slot)" where
  "set_prop obj k v = (if k = ''__proto__'' then obj else obj(k \<mapsto> v))"

text \<open>\<^verbatim>\<open>x || 0\<close>, \<^verbatim>\<open>x + n\<close> and \<^verbatim>\<open>x / d\<close> for the value \<open>x\<close> read from a slot.\<close>

fun slot_or_zero :: "slot option \<Rightarrow> slot" where
  "slot_or_zero None = SNum (Fin 0)"
| "slot_or_zero (Some (SNum a)) = (if truthy_num a then SNum a else SNum (Fin 0))"
| "slot_or_zero (Some SOther) = SOther"

fun slot_plus :: "slot \<Rightarrow> jsnum \<Rightarrow> slot" where
  "slot_plus (SNum a) n = SNum (js_add a n)"
| "slot_plus SOther n = SOther"

fun slot_div :: "slot \<Rightarrow> jsnum \<Rightarrow> jsnum" where
  "slot_div (SNum a) d = js_div a d"
| "slot_div SOther d = NaN"

text \<open>
  \<^verbatim>\<open>for (const e of expenses)
    byCat[e.category] = (byCat[e.category]||0) + Number(e.amount||0);\<close>
\<close>

definition breakdown :: "ExpenseRow list \<Rightarrow> (string \<rightharpoonup> slot)" where
  "breakdown es =
     foldl (\<lambda>byCat e. set_prop byCat (e_category e)
                        (slot_plus (slot_or_zero (get_prop byCat (e_category e)))
                                   (amount_or_zero (e_amount e))))
           Map.empty es"

text \<open>
  A row of the breakdown table:
  \<^verbatim>\<open>const amt = breakdown[cat] || 0;
  const pct = (amt / (totals.expenseKRW || 1)) * 100;\<close>
\<close>

definition or_one :: "jsnum \<Rightarrow> jsnum" where
  "or_one t = (if truthy_num t then t else Fin 1)"

definition breakdown_amt :: "Page \<Rightarrow> string \<Rightarrow> slot" where
  "breakdown_amt st cat = slot_or_zero (get_prop (breakdown (expenses st)) cat)"

definition breakdown_pct :: "Page \<Rightarrow> string \<Rightarrow> jsnum" where
  "breakdown_pct st cat =
     js_mul (slot_div (breakdown_amt st cat) (or_one (expenseKRW (totals st)))) (Fin 100)"

definition breakdown_table :: "Page \<Rightarrow> (string \<times> slot \<times> jsnum) list" where
  "breakdown_table st = map (\<lambda>cat. (cat, breakdown_amt st cat, breakdown_pct st cat)) (categories st)"


section \<open>Handlers of the forms\<close>

text \<open>
  \<^verbatim>\<open>onAddIncome\<close>: the three checks clear \<^verbatim>\<open>ok\<close> one after the other; a failed
  submission only shows a toast. The argument \<open>src\<close> is what the call of \<^verbatim>\<open>uid\<close> reads.
\<close>

definition onAddIncome :: "string \<times> string \<Rightarrow> Page \<Rightarrow> Page \<times> Toast" where
  "onAddIncome src st =
     (let date = trim (fi_date (incomeForm st));
          desc = trim (fi_desc (incomeForm st));
          amount = Math_round (StringToNumber (fi_amount (incomeForm st)));
          ok = True;
          ok = (if date = [] then False else ok);
          ok = (if desc = [] then False else ok);
          ok = (if \<not> js_gt amount (Fin 0) then False else ok)
      in if \<not> ok then (st, (''Please fix the errors above.'', error))
         else (let row = \<lparr>i_id = uid src, i_date = date, i_desc = desc, i_amount = amount,
                            i_notes = Some (trim (fi_notes (incomeForm st)))\<rparr>
               in (st\<lparr>income := income st @ [row],
                      incomeForm := \<lparr>fi_date = fi_date (incomeForm st), fi_desc = [],
                                      fi_amount = [], fi_notes = []\<rparr>\<rparr>,
                   (''Income added'', success))))"

definition onAddExpense :: "string \<times> string \<Rightarrow> Page \<Rightarrow> Page \<times> Toast" where
  "onAddExpense src st =
     (let date = trim (fe_date (expenseForm st));
          category = trim (fe_category (expenseForm st));
          desc = trim (fe_desc (expenseForm st));
          amount = Math_round (StringToNumber (fe_amount (expenseForm st)));
          ok = True;
          ok = (if date = [] then False else ok);
          ok = (if category = [] then False else ok);
          ok = (if desc = [] then False else ok);
          ok = (if \<not> js_gt amount (Fin 0) then False else ok)
      in if \<not> ok then (st, (''Please fix the errors above.'', error))
         else (let row = \<lparr>e_id = uid src, e_date = date, e_category = category, e_desc = desc,
                            e_amount = amount,
                            e_notes = Some (trim (fe_notes (expenseForm st)))\<rparr>
               in (st\<lparr>expenses := expenses st @ [row],
                      expenseForm := \<lparr>fe_date = fe_date (expenseForm st), fe_category = [],
                                       fe_desc = [], fe_amount = [], fe_notes = []\<rparr>\<rparr>,
                   (''Expense added'', success))))"

text \<open>
  \<^verbatim>\<open>onAddCategory\<close>: the argument is what \<^verbatim>\<open>window.prompt\<close> returns, \<open>None\<close> when
  the dialog is dismissed.
\<close>

definition onAddCategory :: "string option \<Rightarrow> Page \<Rightarrow> Page \<times> Toast option" where
  "onAddCategory prompted st =
     (case map_option trim prompted of
        None \<Rightarrow> (st, None)
      | Some name \<Rightarrow>
          if name = [] then (st, None)
          else if list_ex (\<lambda>c. toLowerCase c = toLowerCase name) (categories st)
          then (st, Some (''Category already exists'', error))
          else (st\<lparr>categories := categories st @ [name],
                   expenseForm := (expenseForm st)\<lparr>fe_category := name\<rparr>\<rparr>,
                Some (''Category added'', success)))"

datatype RowKind = income_kind | expense_kind

text \<open>\<^verbatim>\<open>onDelete\<close>: the first argument is the answer to \<^verbatim>\<open>window.confirm\<close>.\<close>

definition onDelete :: "bool \<Rightarrow> string \<Rightarrow> RowKind \<Rightarrow> Page \<Rightarrow> Page \<times> Toast option" where
  "onDelete ok ident kind st =
     (if \<not> ok then (st, None)
      else ((case kind of
               income_kind \<Rightarrow> st\<lparr>income := filter (\<lambda>r. i_id r \<noteq> ident) (income st)\<rparr>
             | expense_kind \<Rightarrow> st\<lparr>expenses := filter (\<lambda>r. e_id r \<noteq> ident) (expenses st)\<rparr>),
            Some (''Record deleted'', success)))"

definition clearAll :: "bool \<Rightarrow> Page \<Rightarrow> Page \<times> Toast option" where
  "clearAll ok st =
     (if \<not> ok then (st, None)
      else (st\<lparr>income := [], expenses := [], categories := DEFAULT_CATEGORIES\<rparr>,
            Some (''All data cleared'', success)))"

section \<open>Export and import\<close>

text \<open>
  \<^verbatim>\<open>exportJSON\<close> builds the object that is written to the file; the argument is the
  text of \<^verbatim>\<open>new Date().toISOString()\<close>. The download itself has no effect on the state.
\<close>

record ExportData =
  x_version :: jsnum
  x_rate :: jsnum
  x_exportedAt :: string
  x_income :: "IncomeRow list"
  x_expenses :: "ExpenseRow list"
  x_categories :: "string list"

definition exportJSON :: "string \<Rightarrow> Page \<Rightarrow> ExportData \<times> Toast" where
  "exportJSON isoNow st =
     (\<lparr>x_version = Fin 1, x_rate = rate st, x_exportedAt = isoNow, x_income = income st,
       x_expenses = expenses st, x_categories = categories st\<rparr>,
      (''Exported JSON downloaded'', success))"

text \<open>
  What the import reads of a parsed document. An entry of the two arrays is \<open>None\<close>
  when it is \<^verbatim>\<open>null\<close> (reading a property of it throws); any other entry is the record
  of its fields, a field that is absent being \<open>None\<close> or \<open>JUndefined\<close> (an entry that
  is not an object has every field absent). The text fields hold a string, or are absent
  or \<^verbatim>\<open>null\<close> (\<open>None\<close>); the amount holds any primitive. A top-level field is \<open>None\<close>
  when it is not an array. The elements of \<^verbatim>\<open>categories\<close> are strings.
\<close>

record RawIncome =
  ri_id :: "string option"
  ri_date :: "string option"
  ri_desc :: "string option"
  ri_amount :: jsval
  ri_notes :: "string option"

record RawExpense =
  re_id :: "string option"
  re_date :: "string option"
  re_category :: "string option"
  re_desc :: "string option"
  re_amount :: jsval
  re_notes :: "string option"

record Document =
  d_income :: "RawIncome option list option"
  d_expenses :: "RawExpense option list option"
  d_categories :: "string list option"

text \<open>
  The result of \<^verbatim>\<open>JSON.parse(String(reader.result || "{}"))\<close>: the call throws, or it
  gives a falsy value (\<^verbatim>\<open>null\<close>, \<^verbatim>\<open>false\<close>, \<^verbatim>\<open>0\<close>, \<^verbatim>\<open>""\<close>), or any other value, of which
  the import reads the three fields (all absent on a value that is not an object).
\<close>

datatype FileContent = Unparseable | Falsy | Parsed Document

text \<open>
  \<^verbatim>\<open>JSON.parse\<close> of \<^verbatim>\<open>JSON.stringify\<close> of the exported object: a number that is not
  finite is written as \<^verbatim>\<open>null\<close>, a finite one is read back as it was, a string is read
  back as it was, and absent notes stay absent.
\<close>

definition json_number :: "jsnum \<Rightarrow> jsval" where
  "json_number x = (if isFinite x then JNum x else JNull)"

definition stringify_parse :: "ExportData \<Rightarrow> FileContent" where
  "stringify_parse d =
     Parsed \<lparr>d_income = Some (map (\<lambda>r. Some \<lparr>ri_id = Some (i_id r), ri_date = Some (i_date r),
                                   ri_desc = Some (i_desc r), ri_amount = json_number (i_amount r),
                                   ri_notes = i_notes r\<rparr>) (x_income d)),
             d_expenses = Some (map (\<lambda>r. Some \<lparr>re_id = Some (e_id r), re_date = Some (e_date r),
                                   re_category = Some (e_category r), re_desc = Some (e_desc r),
                                   re_amount = json_number (e_amount r),
                                   re_notes = e_notes r\<rparr>) (x_expenses d)),
             d_categories = Some (x_categories d)\<rparr>"

text \<open>\<^verbatim>\<open>s || d\<close> for a text field, and \<^verbatim>\<open>n.id || uid()\<close>, which calls \<^verbatim>\<open>uid\<close> only when
  the identifier is missing or empty: \<open>k\<close> counts the calls made so far.\<close>

definition or_text :: "string option \<Rightarrow> string \<Rightarrow> string" where
  "or_text s d = (case s of None \<Rightarrow> d | Some t \<Rightarrow> if t = [] then d else t)"

definition or_uid :: "(nat \<Rightarrow> string \<times> string) \<Rightarrow> nat \<Rightarrow> string option \<Rightarrow> string \<times> nat" where
  "or_uid src k s =
     (case s of
        None \<Rightarrow> (uid (src k), Suc k)
      | Some t \<Rightarrow> if t = [] then (uid (src k), Suc k) else (t, k))"

text \<open>
  \<^verbatim>\<open>obj.income.map((n:any) => ({ id: n.id || uid(), date: n.date||"", desc: n.desc||"",
     amount: Math.max(0, Number(n.amount||0)), notes: n.notes||"" }))\<close>
  in array order; \<open>None\<close> is the \<^verbatim>\<open>TypeError\<close> of a \<^verbatim>\<open>null\<close> entry.
\<close>

fun import_income ::
  "(nat \<Rightarrow> string \<times> string) \<Rightarrow> nat \<Rightarrow> RawIncome option list \<Rightarrow> (IncomeRow list \<times> nat) option" where
  "import_income src k [] = Some ([], k)"
| "import_income src k (None # ns) = None"
| "import_income src k (Some n # ns) =
     (let row = \<lparr>i_id = fst (or_uid src k (ri_id n)), i_date = or_text (ri_date n) [],
                 i_desc = or_text (ri_desc n) [],
                 i_amount = Math_max (Fin 0) (ToNumber (or_zero (ri_amount n))),
                 i_notes = Some (or_text (ri_notes n) [])\<rparr>
      in case import_income src (snd (or_uid src k (ri_id n))) ns of
           None \<Rightarrow> None
         | Some (rows, k') \<Rightarrow> Some (row # rows, k'))"

fun import_expenses ::
  "(nat \<Rightarrow> string \<times> string) \<Rightarrow> nat \<Rightarrow> RawExpense option list \<Rightarrow> (ExpenseRow list \<times> nat) option" where
  "import_expenses src k [] = Some ([], k)"
| "import_expenses src k (None # ns) = None"
| "import_expenses src k (Some n # ns) =
     (let row = \<lparr>e_id = fst (or_uid src k (re_id n)), e_date = or_text (re_date n) [],
                 e_category = or_text (re_category n) ''Other'',
                 e_desc = or_text (re_desc n) [],
                 e_amount = Math_max (Fin 0) (ToNumber (or_zero (re_amount n))),
                 e_notes = Some (or_text (re_notes n) [])\<rparr>
      in case import_expenses src (snd (or_uid src k (re_id n))) ns of
           None \<Rightarrow> None
         | Some (rows, k') \<Rightarrow> Some (row # rows, k'))"

text \<open>\<^verbatim>\<open>Array.from(new Set(xs))\<close>: the first occurrence of each element, in order.\<close>

definition Array_from_Set :: "'a list \<Rightarrow> 'a list" where
  "Array_from_Set xs = rev (remdups (rev xs))"

datatype ImportError = ParseFailure | MalformedStructure | TypeError

datatype ImportOutcome = ImportFailed ImportError | ImportCancelled | ImportSuccessful

text \<open>
  The \<^verbatim>\<open>reader.onload\<close> callback of \<^verbatim>\<open>onFilePicked\<close>. \<open>src\<close> gives what the successive
  calls of \<^verbatim>\<open>uid\<close> read, \<open>confirmReplace\<close> is the answer to \<^verbatim>\<open>window.confirm\<close>. The
  \<^verbatim>\<open>SyntaxError\<close> of \<^verbatim>\<open>JSON.parse\<close> is \<open>ParseFailure\<close>, the error thrown by the
  structure check is \<open>MalformedStructure\<close>; every error ends in the \<^verbatim>\<open>catch\<close>, which
  shows the toast \<^verbatim>\<open>Import failed: ...\<close> and sets nothing.
\<close>

definition onFilePicked ::
  "(nat \<Rightarrow> string \<times> string) \<Rightarrow> bool \<Rightarrow> FileContent \<Rightarrow> Page \<Rightarrow> Page \<times> ImportOutcome" where
  "onFilePicked src confirmReplace content st =
     (case content of
        Unparseable \<Rightarrow> (st, ImportFailed ParseFailure)
      | Falsy \<Rightarrow> (st, ImportFailed MalformedStructure)
      | Parsed obj \<Rightarrow>
          (case d_income obj of
             None \<Rightarrow> (st, ImportFailed MalformedStructure)
           | Some incs \<Rightarrow>
               (case d_expenses obj of
                  None \<Rightarrow> (st, ImportFailed MalformedStructure)
                | Some exps \<Rightarrow>
                    if \<not> confirmReplace then (st, ImportCancelled)
                    else (case import_income src 0 incs of
                            None \<Rightarrow> (st, ImportFailed TypeError)
                          | Some (inc, k) \<Rightarrow>
                              (case import_expenses src k exps of
                                 None \<Rightarrow> (st, ImportFailed TypeError)
                               | Some (exp', k') \<Rightarrow>
                                   (let cat = (case d_categories obj of
                                                 None \<Rightarrow> DEFAULT_CATEGORIES
                                               | Some cs \<Rightarrow>
                                                   if cs \<noteq> [] then cs else DEFAULT_CATEGORIES)
                                    in (st\<lparr>income := inc, expenses := exp',
                                           categories :=
                                             Array_from_Set (cat @ map e_category exp')\<rparr>,
                                        ImportSuccessful)))))))"


section \<open>Notions of the specification and example states\<close>

text \<open>
  A strictly positive integer, as the specification asks of a stored amount: a finite
  number with no fractional part that is greater than 0.
\<close>

definition positive_integer :: "jsnum \<Rightarrow> bool" where
  "positive_integer x = (case x of Fin q \<Rightarrow> 0 < q \<and> of_int \<lfloor>q\<rfloor> = q | _ \<Rightarrow> False)"

text \<open>The start state with a form filled in, for the examples.\<close>

definition salary_form :: Page where
  "salary_form = initial_Page\<lparr>incomeForm := \<lparr>fi_date = ''2024-01-01'', fi_desc = ''Salary'',
     fi_amount = ''3000000'', fi_notes = []\<rparr>\<rparr>"

definition crypto_form :: Page where
  "crypto_form = initial_Page\<lparr>expenseForm := \<lparr>fe_date = ''2024-01-01'', fe_category = ''Crypto'',
     fe_desc = ''Coins'', fe_amount = ''35000'', fe_notes = []\<rparr>\<rparr>"

text \<open>
  The state after a file was imported that holds one income entry with the identifier
  \<^verbatim>\<open>id-t-r\<close>, the form being that of \<open>salary_form\<close>.
\<close>

definition clash_page :: Page where
  "clash_page =
     fst (onFilePicked (\<lambda>k. (''t'', ''r'')) True
            (Parsed \<lparr>d_income = Some [Some \<lparr>ri_id = Some ''id-t-r'', ri_date = Some ''2023-12-31'',
                        ri_desc = Some ''Bonus'', ri_amount = JNum (Fin 500000),
                        ri_notes = None\<rparr>],
                     d_expenses = Some [], d_categories = None\<rparr>)
            salary_form)"

text \<open>
  What the specification calls an equivalent record after export and import: the same
  date, description and amount (and category, an empty one read as \<^verbatim>\<open>Other\<close>), notes
  that were absent read as the empty string, and the same identifier unless it was
  empty, in which case it is one that \<^verbatim>\<open>uid\<close> made.
\<close>

definition nonneg_finite :: "jsnum \<Rightarrow> bool" where
  "nonneg_finite x = (case x of Fin q \<Rightarrow> 0 \<le> q | _ \<Rightarrow> False)"

definition income_kept :: "IncomeRow \<Rightarrow> IncomeRow \<Rightarrow> bool" where
  "income_kept r r' =
     (i_date r' = i_date r \<and> i_desc r' = i_desc r \<and> i_amount r' = i_amount r \<and>
      i_notes r' = Some (or_text (i_notes r) []) \<and>
      (if i_id r = [] then take 3 (i_id r') = ''id-'' else i_id r' = i_id r))"

definition expense_kept :: "ExpenseRow \<Rightarrow> ExpenseRow \<Rightarrow> bool" where
  "expense_kept r r' =
     (e_date r' = e_date r \<and> e_desc r' = e_desc r \<and> e_amount r' = e_amount r \<and>
      e_category r' = or_text (Some (e_category r)) ''Other'' \<and>
      e_notes r' = Some (or_text (e_notes r) []) \<and>
      (if e_id r = [] then take 3 (e_id r') = ''id-'' else e_id r' = e_id r))"

text \<open>
  States for the examples: the state after an expense was added from \<open>crypto_form\<close>,
  the state after an income of \<^verbatim>\<open>Infinity\<close> was added, and a small ledger.
\<close>

definition orphan_page :: Page where
  "orphan_page = fst (onAddExpense (''t'', ''r'') crypto_form)"

definition infinite_income_page :: Page where
  "infinite_income_page =
     fst (onAddIncome (''t'', ''r'')
            (salary_form\<lparr>incomeForm := (incomeForm salary_form)\<lparr>fi_amount := ''Infinity''\<rparr>\<rparr>))"

definition ledger_example :: Page where
  "ledger_example =
     initial_Page\<lparr>income := [\<lparr>i_id = ''id-1'', i_date = ''2024-01-01'', i_desc = ''Salary'',
                               i_amount = Fin 3000000, i_notes = Some []\<rparr>],
                  expenses := [\<lparr>e_id = ''id-2'', e_date = ''2024-01-02'', e_category = ''Other'',
                                 e_desc = ''Lunch'', e_amount = Fin 9000, e_notes = None\<rparr>]\<rparr>"

text \<open>
  The sum of a list of numbers in list order, with the addition of the program.
\<close>

definition js_sum :: "jsnum list \<Rightarrow> jsnum" where
  "js_sum xs = foldl js_add (Fin 0) xs"

text \<open>
  The percentage in the specification's words: amount / max(totalExpense, 1) * 100.
  It is compared with \<open>breakdown_pct\<close>, which is the percentage of the code.
\<close>

definition pct_spec :: "jsnum \<Rightarrow> jsnum \<Rightarrow> jsnum" where
  "pct_spec amt t = js_mul (js_div amt (Math_max t (Fin 1))) (Fin 100)"

text \<open>A number that is not negative: a finite one from 0 on, or \<^verbatim>\<open>+Infinity\<close>.\<close>

definition nonneg_num :: "jsnum \<Rightarrow> bool" where
  "nonneg_num x = (case x of Fin q \<Rightarrow> 0 \<le> q | PInf \<Rightarrow> True | _ \<Rightarrow> False)"

text \<open>One round of the loop of \<open>breakdown\<close>, seen at the slot of one category.\<close>

definition slot_step :: "slot option \<Rightarrow> jsnum \<Rightarrow> slot option" where
  "slot_step v a = Some (slot_plus (slot_or_zero v) (amount_or_zero a))"

text \<open>
  An amount that is a non-negative integer, its value as an integer, and the exact
  integer totals of one category and of the whole ledger.
\<close>

definition nat_amount :: "jsnum \<Rightarrow> bool" where
  "nat_amount x = (case x of Fin q \<Rightarrow> 0 \<le> q \<and> of_int \<lfloor>q\<rfloor> = q | _ \<Rightarrow> False)"

definition amount_int :: "jsnum \<Rightarrow> int" where
  "amount_int x = (case x of Fin q \<Rightarrow> \<lfloor>q\<rfloor> | _ \<Rightarrow> 0)"

definition cat_total :: "Page \<Rightarrow> string \<Rightarrow> int" where
  "cat_total st c =
     sum_list (map (\<lambda>e. amount_int (e_amount e)) [e \<leftarrow> expenses st. e_category e = c])"

definition ledger_total :: "Page \<Rightarrow> int" where
  "ledger_total st = sum_list (map (\<lambda>e. amount_int (e_amount e)) (expenses st))"

text \<open>States with expenses, for the examples of the breakdown.\<close>

definition exp_row :: "string \<Rightarrow> jsnum \<Rightarrow> ExpenseRow" where
  "exp_row c a = \<lparr>e_id = ''id-'' @ c, e_date = ''2024-01-01'', e_category = c, e_desc = ''x'',
                  e_amount = a, e_notes = Some []\<rparr>"

definition half_page :: Page where
  "half_page = initial_Page\<lparr>expenses := [exp_row ''Other'' (Fin (1 / 2))]\<rparr>"

definition thirds_page :: Page where
  "thirds_page = initial_Page\<lparr>expenses := [exp_row ''Shopping'' (Fin 1),
      exp_row ''Other'' (Fin 1), exp_row ''Entertainment'' (Fin 1)]\<rparr>"

definition groceries_page :: Page where
  "groceries_page = initial_Page\<lparr>expenses := [exp_row ''Other'' (Fin 9000),
      exp_row ''Shopping'' (Fin 3000), exp_row ''Other'' (Fin 1000)]\<rparr>"

definition constructor_page :: Page where
  "constructor_page = fst (onAddCategory (Some ''constructor'') initial_Page)"

section \<open>Facts about rounding\<close>

lemma pow2_pos: "0 < pow2 e" by (simp add: pow2_def)
lemma pow2_add: "pow2 (a + b) = pow2 a * pow2 b" by (simp add: pow2_def power_int_add)
lemma pow2_diff: "pow2 (a - b) = pow2 a / pow2 b" by (simp add: pow2_def power_int_diff)
lemma pow2_mono: "a \<le> b \<Longrightarrow> pow2 a \<le> pow2 b" by (simp add: pow2_def power_int_increasing)
lemma pow2_nat: "0 \<le> e \<Longrightarrow> pow2 e = 2 ^ nat e" by (simp add: pow2_def power_int_def)
lemma pow2_less_cancel: "pow2 a < pow2 b \<Longrightarrow> a < b"
  using pow2_mono[of b a] by (cases "a < b") auto

lemma bitlen_pow2_bounds:
  assumes "0 < (a::int)"
  shows "pow2 (bitlen a - 1) \<le> of_int a" "of_int a < pow2 (bitlen a)"
proof -
  have l: "1 \<le> bitlen a" using assms by (simp add: bitlen_alt_def)
  from bitlen_bounds[OF assms] have 1: "2 ^ nat (bitlen a - 1) \<le> a" and 2: "a < 2 ^ nat (bitlen a)" by auto
  have "(of_int (2 ^ nat (bitlen a - 1)) :: rat) \<le> of_int a" using 1 of_int_le_iff by blast
  then show "pow2 (bitlen a - 1) \<le> of_int a" using l by (simp add: pow2_nat)
  have "(of_int a :: rat) < of_int (2 ^ nat (bitlen a))" using 2 of_int_less_iff by blast
  then show "of_int a < pow2 (bitlen a)" using l by (simp add: pow2_nat)
qed

lemma ilog2_bounds:
  assumes "0 < q"
  shows "pow2 (ilog2 q) \<le> q \<and> q < pow2 (ilog2 q + 1)"
proof -
  obtain a b where ab: "quotient_of q = (a, b)" by (cases "quotient_of q")
  have b: "0 < b" using ab quotient_of_denom_pos by blast
  have q: "q = of_int a / of_int b" using ab quotient_of_div by blast
  have a: "0 < a" using assms b q by (simp add: zero_less_divide_iff)
  define d where "d = bitlen a - bitlen b"
  have rb: "(0::rat) < of_int b" using b by simp
  have "q < pow2 (bitlen a) / of_int b"
    unfolding q using bitlen_pow2_bounds(2)[OF a] rb by (simp add: divide_strict_right_mono)
  also have "\<dots> \<le> pow2 (bitlen a) / pow2 (bitlen b - 1)"
    using bitlen_pow2_bounds(1)[OF b] pow2_pos[of "bitlen b - 1"] pow2_pos[of "bitlen a"]
    by (simp add: frac_le)
  also have "\<dots> = pow2 (d + 1)"
    unfolding pow2_diff[symmetric] d_def by (rule arg_cong[where f=pow2]) simp
  finally have up: "q < pow2 (d + 1)" .
  have "pow2 (d - 1) = pow2 (bitlen a - 1) / pow2 (bitlen b)"
    unfolding pow2_diff[symmetric] d_def by (rule arg_cong[where f=pow2]) simp
  also have "\<dots> < pow2 (bitlen a - 1) / of_int b"
    using bitlen_pow2_bounds(2)[OF b] rb pow2_pos[of "bitlen a - 1"]
    by (simp add: divide_strict_left_mono)
  also have "\<dots> \<le> q"
    unfolding q using bitlen_pow2_bounds(1)[OF a] rb by (simp add: divide_right_mono)
  finally have lo: "pow2 (d - 1) < q" .
  have il: "ilog2 q = (if pow2 d \<le> q then d else d - 1)"
    by (simp add: ilog2_def ab d_def)
  show ?thesis
  proof (cases "pow2 d \<le> q")
    case True
    then show ?thesis using up il by simp
  next
    case False
    then show ?thesis using lo il by simp
  qed
qed

lemma round_half_even_of_int: "round_half_even (of_int n) = n"
  by (simp add: round_half_even_def)

lemma round_half_even_nonneg: "0 \<le> x \<Longrightarrow> 0 \<le> round_half_even x"
  by (simp add: round_half_even_def Let_def)

lemma round_pos_exact:
  assumes m: "0 < m" "m < 2 ^ 53" and k: "- 1074 \<le> k" and lt: "of_int m * pow2 k < pow2 1024"
  shows "round_pos (of_int m * pow2 k) = Fin (of_int m * pow2 k)"
proof -
  define q where "q = of_int m * pow2 k"
  have qpos: "0 < q" using m pow2_pos[of k] by (simp add: q_def)
  define E where "E = max (ilog2 q) (- 1022)"
  have "pow2 (ilog2 q) \<le> q" using ilog2_bounds[OF qpos] by simp
  also have "q < pow2 53 * pow2 k"
  proof -
    have "(of_int m :: rat) < of_int (2 ^ 53)" using m(2) of_int_less_iff by blast
    then have "(of_int m :: rat) < pow2 53" by (simp add: pow2_nat)
    then show ?thesis unfolding q_def using pow2_pos[of k] by simp
  qed
  also have "\<dots> = pow2 (53 + k)" by (simp add: pow2_add)
  finally have "ilog2 q < 53 + k" by (rule pow2_less_cancel)
  then have Ek: "E - 52 \<le> k" using k by (simp add: E_def)
  define j where "j = nat (k - (E - 52))"
  have kj: "k = int j + (E - 52)" using Ek by (simp add: j_def)
  have pk: "pow2 k = 2 ^ j * pow2 (E - 52)"
    by (subst kj, subst pow2_add) (simp add: pow2_nat)
  have ne: "pow2 (E - 52) \<noteq> 0" using pow2_pos[of "E - 52"] by simp
  have quo: "q / pow2 (E - 52) = of_int (m * 2 ^ j)"
    using ne by (simp add: q_def pk)
  have y: "of_int (round_half_even (q / pow2 (E - 52))) * pow2 (E - 52) = q"
    unfolding quo round_half_even_of_int by (simp add: q_def pk)
  have "round_pos q = (if pow2 1024 \<le> q then PInf else Fin q)"
    unfolding round_pos_def Let_def E_def[symmetric] y by simp
  then show ?thesis using lt by (simp add: q_def)
qed

lemma round_double_exact:
  assumes m: "\<bar>m\<bar> < 2 ^ 53" and k: "- 1074 \<le> k" and lt: "of_int \<bar>m\<bar> * pow2 k < pow2 1024"
  shows "round_double (of_int m * pow2 k) = Fin (of_int m * pow2 k)"
proof -
  consider "m = 0" | "0 < m" | "m < 0" by linarith
  then show ?thesis
  proof cases
    case 1
    then show ?thesis by (simp add: round_double_def)
  next
    case 2
    then have "round_pos (of_int m * pow2 k) = Fin (of_int m * pow2 k)"
      using round_pos_exact[of m k] m k lt by simp
    moreover have "0 < of_int m * pow2 k" using 2 pow2_pos[of k] by simp
    ultimately show ?thesis by (simp add: round_double_def)
  next
    case 3
    then have "round_pos (of_int (- m) * pow2 k) = Fin (of_int (- m) * pow2 k)"
      using round_pos_exact[of "- m" k] m k lt by simp
    moreover have "of_int m * pow2 k < 0" using 3 pow2_pos[of k] by (simp add: mult_neg_pos)
    ultimately show ?thesis by (simp add: round_double_def)
  qed
qed

lemma round_double_int:
  assumes "\<bar>m\<bar> < 2 ^ 53"
  shows "round_double (of_int m) = Fin (of_int m)"
proof -
  have "(of_int \<bar>m\<bar> :: rat) < of_int (2 ^ 53)" using assms of_int_less_iff by blast
  also have "\<dots> < pow2 1024" by (simp add: pow2_def)
  finally have "of_int \<bar>m\<bar> * pow2 0 < pow2 1024" by (simp add: pow2_def)
  from round_double_exact[OF assms _ this] show ?thesis by (simp add: pow2_def)
qed

lemma round_pos_overflow:
  assumes "pow2 1024 \<le> q"
  shows "round_pos q = PInf"
proof -
  have qpos: "0 < q" using assms pow2_pos[of 1024] by simp
  define e where "e = ilog2 q"
  have b: "pow2 e \<le> q" "q < pow2 (e + 1)" using ilog2_bounds[OF qpos] by (simp_all add: e_def)
  have "pow2 1024 < pow2 (e + 1)" using assms b(2) by simp
  then have e: "1024 \<le> e" using pow2_less_cancel[of 1024 "e + 1"] by simp
  then have E: "max e (- 1022) = e" by simp
  have up: "0 < pow2 (e - 52)" by (rule pow2_pos)
  have "pow2 52 = pow2 e / pow2 (e - 52)" 
    unfolding pow2_diff[symmetric] by (rule arg_cong[where f=pow2]) simp
  also have "\<dots> \<le> q / pow2 (e - 52)" using b(1) up by (simp add: divide_right_mono)
  finally have "(of_int (2 ^ 52) :: rat) \<le> q / pow2 (e - 52)" by (simp add: pow2_nat)
  then have f: "2 ^ 52 \<le> \<lfloor>q / pow2 (e - 52)\<rfloor>" using le_floor_iff by blast
  have fl: "\<lfloor>q / pow2 (e - 52)\<rfloor> \<le> round_half_even (q / pow2 (e - 52))"
    by (simp add: round_half_even_def Let_def)
  have "2 ^ 52 \<le> round_half_even (q / pow2 (e - 52))" by (rule order_trans[OF f fl])
  then have "(of_int (2 ^ 52) :: rat) \<le> of_int (round_half_even (q / pow2 (e - 52)))"
    using of_int_le_iff by blast
  then have "pow2 52 * pow2 (e - 52) \<le> of_int (round_half_even (q / pow2 (e - 52))) * pow2 (e - 52)"
    using up by (simp add: pow2_nat)
  moreover have "pow2 52 * pow2 (e - 52) = pow2 e"
    unfolding pow2_add[symmetric] by (rule arg_cong[where f=pow2]) simp
  moreover have "pow2 1024 \<le> pow2 e" using e by (rule pow2_mono)
  ultimately have "pow2 1024 \<le> of_int (round_half_even (q / pow2 (e - 52))) * pow2 (e - 52)"
    by simp
  then show ?thesis unfolding round_pos_def Let_def e_def[symmetric] E by simp
qed

lemma round_pos_cases:
  assumes "0 < q"
  shows "round_pos q = PInf \<or> (\<exists>r. 0 \<le> r \<and> round_pos q = Fin r)"
proof -
  define u where "u = pow2 (max (ilog2 q) (- 1022) - 52)"
  have u: "0 < u" unfolding u_def by (rule pow2_pos)
  have "0 \<le> q / u" using assms u by simp
  then have "0 \<le> round_half_even (q / u)" by (rule round_half_even_nonneg)
  then have "0 \<le> of_int (round_half_even (q / u)) * u" using u by simp
  then show ?thesis unfolding round_pos_def Let_def u_def[symmetric] by auto
qed


lemma ilog2_unique:
  assumes "pow2 e \<le> q" "q < pow2 (e + 1)"
  shows "ilog2 q = e"
proof -
  have q: "0 < q" using assms(1) pow2_pos[of e] by simp
  from ilog2_bounds[OF q] have 1: "pow2 (ilog2 q) \<le> q" and 2: "q < pow2 (ilog2 q + 1)" by auto
  have "pow2 e < pow2 (ilog2 q + 1)" using assms(1) 2 by simp
  then have a: "e < ilog2 q + 1" by (rule pow2_less_cancel)
  have "pow2 (ilog2 q) < pow2 (e + 1)" using assms(2) 1 by simp
  then have b: "ilog2 q < e + 1" by (rule pow2_less_cancel)
  show ?thesis using a b by simp
qed

lemma round_half_even_near:
  assumes "\<bar>x - of_int n\<bar> < 1 / 2"
  shows "round_half_even x = n"
proof -
  have lo: "of_int n - 1 / 2 < x" and hi: "x < of_int n + 1 / 2" using assms by linarith+
  define f where "f = \<lfloor>x\<rfloor>"
  have f1: "of_int f \<le> x" and f2: "x < of_int f + 1" unfolding f_def by linarith+
  have "(of_int f :: rat) < of_int n + 1 / 2" using f1 hi by linarith
  then have "(of_int f :: rat) < of_int (n + 1)" by simp
  then have fn1: "f < n + 1" using of_int_less_iff by blast
  have "(of_int n :: rat) - 1 / 2 < of_int f + 1" using f2 lo by linarith
  then have "(of_int (n - 1) :: rat) < of_int (f + 1)" by simp
  then have fn2: "n - 1 < f + 1" using of_int_less_iff by blast
  consider "f = n" | "f = n - 1" using fn1 fn2 by linarith
  then show ?thesis
  proof cases
    case 1
    then have "x - of_int f < 1 / 2" using hi by simp
    then show ?thesis using 1 by (simp add: round_half_even_def Let_def f_def[symmetric])
  next
    case 2
    then have "(of_int f :: rat) = of_int n - 1" by simp
    then have "1 / 2 < x - of_int f" using lo by linarith
    then show ?thesis using 2 by (simp add: round_half_even_def Let_def f_def[symmetric])
  qed
qed

lemma round_pos_eval:
  assumes "pow2 e \<le> q" "q < pow2 (e + 1)" "- 1022 \<le> e"
    and "\<bar>q / pow2 (e - 52) - of_int n\<bar> < 1 / 2"
    and "of_int n * pow2 (e - 52) < pow2 1024"
  shows "round_pos q = Fin (of_int n * pow2 (e - 52))"
proof -
  have i: "ilog2 q = e" using assms(1,2) by (rule ilog2_unique)
  have m: "max e (- 1022) = e" using assms(3) by simp
  have r: "round_half_even (q / pow2 (e - 52)) = n" using assms(4) by (rule round_half_even_near)
  show ?thesis using assms(5) by (simp add: round_pos_def Let_def i m r)
qed

lemma round_double_overflow_example: "round_double (1 / pow2 (- 1074)) = PInf"
proof -
  have "1 / pow2 (- 1074) = pow2 1074" by (simp add: pow2_def power_int_minus)
  moreover have "pow2 1024 \<le> pow2 1074" by (rule pow2_mono) simp
  ultimately have "round_pos (1 / pow2 (- 1074)) = PInf" using round_pos_overflow by simp
  moreover have "0 < 1 / pow2 (- 1074)" using pow2_pos[of "- 1074"] by simp
  ultimately show ?thesis by (simp add: round_double_def)
qed

lemma js_add_int:
  "\<bar>t + a\<bar> < 2 ^ 53 \<Longrightarrow> js_add (Fin (of_int t)) (Fin (of_int a)) = Fin (of_int (t + a))"
  using round_double_int[of "t + a"] by simp

lemma js_sub_int:
  "\<bar>n - l\<bar> < 2 ^ 53 \<Longrightarrow> js_sub (Fin (of_int n)) (Fin (of_int l)) = Fin (of_int (n - l))"
  using round_double_int[of "n - l"] by (simp add: js_sub_def)

lemma Math_round_of_int: "Math_round (Fin (of_int n)) = Fin (of_int n)"
proof -
  have "\<lfloor>(of_int n :: rat) + 1 / 2\<rfloor> = n" by (rule floor_unique) simp_all
  then show ?thesis by simp
qed

lemma js_gt_round_iff:
  "js_gt (Math_round x) (Fin 0) = (positive_integer (Math_round x) \<or> Math_round x = PInf)"
  by (cases x) (simp_all add: js_gt_def positive_integer_def)

lemma amount_or_zero_pos: "js_gt a (Fin 0) \<Longrightarrow> amount_or_zero a = a"
  by (cases a) (auto simp add: amount_or_zero_def or_zero_def js_gt_def)

lemma RATE_MAX_AGE_MS_value: "RATE_MAX_AGE_MS = Fin 43200000"
  by (simp add: RATE_MAX_AGE_MS_def)

section \<open>Evaluation of the conversions on the examples\<close>

lemmas parse_defs = StringToNumber_def trim_def is_ws_def parse_non_decimal_def
  parse_unsigned_decimal_def is_digit_def digit_val_def dec_val_def parse_exponent_def

lemma StringToNumber_3000000: "StringToNumber ''3000000'' = Fin 3000000"
  using round_double_int[of 3000000] by (simp add: parse_defs)

lemma StringToNumber_35000: "StringToNumber ''35000'' = Fin 35000"
  using round_double_int[of 35000] by (simp add: parse_defs)

lemma StringToNumber_timestamp: "StringToNumber ''1699956800000'' = Fin 1699956800000"
  using round_double_int[of 1699956800000] by (simp add: parse_defs)

lemma Math_round_35000: "Math_round (StringToNumber ''35000'') = Fin 35000"
  using Math_round_of_int[of 35000] by (simp add: StringToNumber_35000)

lemma Math_round_3000000: "Math_round (StringToNumber ''3000000'') = Fin 3000000"
  using Math_round_of_int[of 3000000] by (simp add: StringToNumber_3000000)

lemma trim_examples:
  "trim ''2024-01-01'' = ''2024-01-01''" "trim ''Salary'' = ''Salary''" "trim [] = []"
  "trim '' '' = []" "trim ''Crypto'' = ''Crypto''" "trim ''Coins'' = ''Coins''"
  by (simp_all add: trim_def is_ws_def)

lemma incomeKRW_totals:
  "incomeKRW (totals st) = foldl (\<lambda>s r. js_add s (amount_or_zero (i_amount r))) (Fin 0) (income st)"
  by (simp add: totals_def Let_def)

lemma expenseKRW_totals:
  "expenseKRW (totals st) = foldl (\<lambda>s r. js_add s (amount_or_zero (e_amount r))) (Fin 0) (expenses st)"
  by (simp add: totals_def Let_def)

section \<open>Conversion guard\<close>

text \<open>
  Claim C6. For every amount, \<open>krwToUsd\<close> returns the quotient amount / rate (the
  division of the two numbers) when the rate is finite and strictly greater than 0,
  and returns exactly 0 for every other rate: NaN, an infinity, zero or a negative
  number. The guard's result is the finite number 0, never NaN or an infinity.
\<close>

theorem krwToUsd_guarded:
  "(isFinite r \<and> js_gt r (Fin 0) \<longrightarrow> krwToUsd krw r = js_div krw r) \<and>
   (\<not> (isFinite r \<and> js_gt r (Fin 0)) \<longrightarrow> krwToUsd krw r = Fin 0)"
  by (cases r) (auto simp add: krwToUsd_def js_gt_def)

theorem krwToUsd_guarded_witness:
  "krwToUsd (Fin 1388000) (Fin 1388) = Fin 1000 \<and> krwToUsd (Fin 1388000) (Fin 0) = Fin 0 \<and>
   krwToUsd (Fin 1388000) (Fin (- 1388)) = Fin 0 \<and> krwToUsd (Fin 1388000) PInf = Fin 0 \<and>
   krwToUsd (Fin 1388000) NInf = Fin 0 \<and> krwToUsd PInf NaN = Fin 0"
  using krwToUsd_guarded[of "Fin 1388" "Fin 1388000"] krwToUsd_guarded[of "Fin 0" "Fin 1388000"]
    krwToUsd_guarded[of "Fin (- 1388)" "Fin 1388000"] krwToUsd_guarded[of PInf "Fin 1388000"]
    krwToUsd_guarded[of NInf "Fin 1388000"] krwToUsd_guarded[of NaN PInf]
    round_double_int[of 1000]
  by (simp add: js_gt_def)

section \<open>Frame of the single-collection handlers\<close>

text \<open>
  Claim C10. Each handler that changes one collection leaves the others as they were:
  adding an income row and deleting one leave the expenses and the categories unchanged;
  adding an expense row and deleting one leave the income and the categories unchanged;
  adding a category leaves the income and the expenses unchanged. This holds for every
  state and every input, whether the handler accepts the input or not.
\<close>

theorem single_collection_frame:
  "expenses (fst (onAddIncome src st)) = expenses st \<and>
   categories (fst (onAddIncome src st)) = categories st \<and>
   expenses (fst (onDelete ok ident income_kind st)) = expenses st \<and>
   categories (fst (onDelete ok ident income_kind st)) = categories st \<and>
   income (fst (onAddExpense src st)) = income st \<and>
   categories (fst (onAddExpense src st)) = categories st \<and>
   income (fst (onDelete ok ident expense_kind st)) = income st \<and>
   categories (fst (onDelete ok ident expense_kind st)) = categories st \<and>
   income (fst (onAddCategory prompted st)) = income st \<and>
   expenses (fst (onAddCategory prompted st)) = expenses st"
  by (simp add: onAddIncome_def onAddExpense_def onDelete_def onAddCategory_def Let_def
      split: option.split)

section \<open>Import of a malformed file\<close>

text \<open>
  Claim C2. When the file cannot be parsed the import fails with \<open>ParseFailure\<close>; when
  the parsed value is falsy, or its \<^verbatim>\<open>income\<close> or its \<^verbatim>\<open>expenses\<close> field is not an
  array, the import fails with \<open>MalformedStructure\<close>. In each case the whole state, and
  so the income collection, the expense collection and the category set, is returned
  unchanged, whatever the answer to the confirmation would have been.
\<close>

theorem import_rejects_malformed:
  "onFilePicked src confirmReplace Unparseable st = (st, ImportFailed ParseFailure) \<and>
   onFilePicked src confirmReplace Falsy st = (st, ImportFailed MalformedStructure) \<and>
   (d_income obj = None \<or> d_expenses obj = None \<longrightarrow>
      onFilePicked src confirmReplace (Parsed obj) st = (st, ImportFailed MalformedStructure))"
  by (auto simp add: onFilePicked_def split: option.split)

theorem import_rejects_malformed_witness:
  "onFilePicked (\<lambda>k. (''t'', ''r'')) True
     (Parsed \<lparr>d_income = Some [], d_expenses = None, d_categories = Some [''Rent'']\<rparr>)
     (initial_Page\<lparr>income := [\<lparr>i_id = ''id-1'', i_date = ''2024-01-01'', i_desc = ''Salary'',
                                  i_amount = Fin 3000000, i_notes = Some []\<rparr>]\<rparr>)
   = (initial_Page\<lparr>income := [\<lparr>i_id = ''id-1'', i_date = ''2024-01-01'', i_desc = ''Salary'',
                                   i_amount = Fin 3000000, i_notes = Some []\<rparr>]\<rparr>,
      ImportFailed MalformedStructure)"
  using import_rejects_malformed[where
      obj = "\<lparr>d_income = Some [], d_expenses = None, d_categories = Some [''Rent'']\<rparr>"
      and src = "\<lambda>k. (''t'', ''r'')" and confirmReplace = True
      and st = "initial_Page\<lparr>income := [\<lparr>i_id = ''id-1'', i_date = ''2024-01-01'', i_desc = ''Salary'',
                                  i_amount = Fin 3000000, i_notes = Some []\<rparr>]\<rparr>"]
  by simp


section \<open>Adding an income record\<close>

lemma clash_page_eq:
  "clash_page = salary_form\<lparr>income := [\<lparr>i_id = ''id-t-r'', i_date = ''2023-12-31'',
       i_desc = ''Bonus'', i_amount = Fin 500000, i_notes = Some []\<rparr>],
     expenses := [], categories := DEFAULT_CATEGORIES\<rparr>"
  by (simp add: clash_page_def onFilePicked_def or_zero_def or_uid_def or_text_def
      Array_from_Set_def DEFAULT_CATEGORIES_def)

text \<open>
  Claim C7, as amended. \<open>onAddIncome\<close> accepts the form if and only if the trimmed date
  is not empty, the trimmed description is not empty, and the amount, converted to a
  number and rounded by \<^verbatim>\<open>Math.round\<close>, is greater than 0: a strictly positive integer or
  \<^verbatim>\<open>+Infinity\<close>. On acceptance exactly one row is appended to the income collection,
  with the trimmed fields and the rounded amount, and the total income becomes the old
  total plus that amount in binary64 addition (the exact sum when both are integers and
  the sum is below \<open>2\<^sup>5\<^sup>3\<close> in magnitude). The identifier of the row is the text that
  \<^verbatim>\<open>uid\<close> builds from the clock and the random digits. It starts with \<^verbatim>\<open>id-\<close>, and it is
  fresh, that is, different from every identifier of the collection (which stays free
  of duplicates if it was), whenever that text does not occur in the collection already;
  the handler does not check this. On rejection the state is unchanged and the toast
  reports the validation error.
\<close>

theorem onAddIncome_validation:
  "let amount = Math_round (StringToNumber (fi_amount (incomeForm st)));
       valid = (trim (fi_date (incomeForm st)) \<noteq> [] \<and> trim (fi_desc (incomeForm st)) \<noteq> [] \<and>
                (positive_integer amount \<or> amount = PInf));
       res = onAddIncome src st
   in (valid \<longrightarrow>
         income (fst res) =
           income st @ [\<lparr>i_id = uid src, i_date = trim (fi_date (incomeForm st)),
                         i_desc = trim (fi_desc (incomeForm st)), i_amount = amount,
                         i_notes = Some (trim (fi_notes (incomeForm st)))\<rparr>] \<and>
         snd res = (''Income added'', success) \<and>
         incomeKRW (totals (fst res)) = js_add (incomeKRW (totals st)) amount \<and>
         (\<forall>t a. incomeKRW (totals st) = Fin (of_int t) \<and> amount = Fin (of_int a) \<and>
                \<bar>t + a\<bar> < 2 ^ 53 \<longrightarrow>
                incomeKRW (totals (fst res)) = Fin (of_int (t + a))) \<and>
         take 3 (uid src) = ''id-'' \<and>
         (uid src \<notin> set (map i_id (income st)) \<longrightarrow>
            (\<forall>r \<in> set (income st). i_id r \<noteq> i_id (last (income (fst res)))) \<and>
            (distinct (map i_id (income st)) \<longrightarrow> distinct (map i_id (income (fst res)))))) \<and>
      (\<not> valid \<longrightarrow> res = (st, (''Please fix the errors above.'', error)))"
proof -
  define amount where "amount = Math_round (StringToNumber (fi_amount (incomeForm st)))"
  define ok where "ok = (trim (fi_date (incomeForm st)) \<noteq> [] \<and>
     trim (fi_desc (incomeForm st)) \<noteq> [] \<and> js_gt amount (Fin 0))"
  have valid: "ok = (trim (fi_date (incomeForm st)) \<noteq> [] \<and> trim (fi_desc (incomeForm st)) \<noteq> [] \<and>
                (positive_integer amount \<or> amount = PInf))"
    unfolding ok_def amount_def js_gt_round_iff ..
  have bad: "onAddIncome src st = (st, (''Please fix the errors above.'', error))" if "\<not> ok"
    using that by (auto simp add: onAddIncome_def Let_def ok_def amount_def)
  have good: "onAddIncome src st =
      (st\<lparr>income := income st @ [\<lparr>i_id = uid src, i_date = trim (fi_date (incomeForm st)),
                         i_desc = trim (fi_desc (incomeForm st)), i_amount = amount,
                         i_notes = Some (trim (fi_notes (incomeForm st)))\<rparr>],
          incomeForm := \<lparr>fi_date = fi_date (incomeForm st), fi_desc = [],
                                      fi_amount = [], fi_notes = []\<rparr>\<rparr>,
       (''Income added'', success))" if ok
    using that by (simp add: onAddIncome_def Let_def ok_def amount_def)
  have tot: "incomeKRW (totals (fst (onAddIncome src st))) = js_add (incomeKRW (totals st)) amount"
    if ok
  proof -
    have "amount_or_zero amount = amount" using that amount_or_zero_pos by (simp add: ok_def)
    then show ?thesis using good[OF that] by (simp add: incomeKRW_totals)
  qed
  have shape: "take 3 (uid src) = ''id-''" by (simp add: uid_def)
  have fresh: "(\<forall>r \<in> set (income st). i_id r \<noteq> i_id (last (income (fst (onAddIncome src st))))) \<and>
      (distinct (map i_id (income st)) \<longrightarrow> distinct (map i_id (income (fst (onAddIncome src st)))))"
    if ok "uid src \<notin> set (map i_id (income st))"
  proof -
    have "\<forall>r \<in> set (income st). i_id r \<noteq> uid src" using that(2) by force
    then show ?thesis using that(2) by (simp add: good[OF that(1)])
  qed
  show ?thesis
    unfolding Let_def amount_def[symmetric] valid[symmetric]
    using bad good tot js_add_int shape fresh by auto
qed

theorem onAddIncome_validation_witness:
  "income (fst (onAddIncome (''t'', ''r'') salary_form)) =
     [\<lparr>i_id = ''id-t-r'', i_date = ''2024-01-01'', i_desc = ''Salary'', i_amount = Fin 3000000,
       i_notes = Some []\<rparr>] \<and>
   incomeKRW (totals salary_form) = Fin 0 \<and>
   incomeKRW (totals (fst (onAddIncome (''t'', ''r'') salary_form))) = Fin 3000000 \<and>
   onAddIncome (''t'', ''r'') (salary_form\<lparr>incomeForm := (incomeForm salary_form)\<lparr>fi_desc := '' ''\<rparr>\<rparr>)
     = (salary_form\<lparr>incomeForm := (incomeForm salary_form)\<lparr>fi_desc := '' ''\<rparr>\<rparr>,
        (''Please fix the errors above.'', error)) \<and>
   map i_id (income (fst (onAddIncome (''u'', ''r'') clash_page))) = [''id-t-r'', ''id-u-r''] \<and>
   distinct (map i_id (income (fst (onAddIncome (''u'', ''r'') clash_page))))"
proof -
  have pi: "positive_integer (Fin 3000000)" by (simp add: positive_integer_def)
  have ids: "map i_id (income (fst (onAddIncome (''u'', ''r'') clash_page))) = [''id-t-r'', ''id-u-r''] \<and>
   distinct (map i_id (income (fst (onAddIncome (''u'', ''r'') clash_page))))"
    using onAddIncome_validation[of clash_page "(''u'', ''r'')"]
    by (simp add: Let_def clash_page_eq salary_form_def initial_Page_def Math_round_3000000
        trim_examples pi uid_def)
  show ?thesis
    using ids onAddIncome_validation[of salary_form "(''t'', ''r'')"]
      onAddIncome_validation[of
        "salary_form\<lparr>incomeForm := (incomeForm salary_form)\<lparr>fi_desc := '' ''\<rparr>\<rparr>" "(''t'', ''r'')"]
      round_double_int[of 3000000]
    by (simp add: Let_def salary_form_def initial_Page_def Math_round_3000000 trim_examples pi
        uid_def incomeKRW_totals amount_or_zero_def or_zero_def)
qed

text \<open>
  The claim as written fails in two ways. On the amount \<^verbatim>\<open>Infinity\<close> the form is
  accepted and the stored amount is not an integer. And the identifier need not be fresh:
  when the collection holds an imported row whose identifier is the text that \<^verbatim>\<open>uid\<close>
  builds next, the new row gets the same identifier.
\<close>

theorem onAddIncome_infinite_amount:
  "snd (onAddIncome (''t'', ''r'')
          (salary_form\<lparr>incomeForm := (incomeForm salary_form)\<lparr>fi_amount := ''Infinity''\<rparr>\<rparr>))
     = (''Income added'', success) \<and>
   map i_amount (income (fst (onAddIncome (''t'', ''r'')
      (salary_form\<lparr>incomeForm := (incomeForm salary_form)\<lparr>fi_amount := ''Infinity''\<rparr>\<rparr>)))) = [PInf] \<and>
   \<not> positive_integer (Math_round (StringToNumber ''Infinity'')) \<and>
   map i_id (income clash_page) = [''id-t-r''] \<and>
   snd (onAddIncome (''t'', ''r'') clash_page) = (''Income added'', success) \<and>
   map i_id (income (fst (onAddIncome (''t'', ''r'') clash_page))) = [''id-t-r'', ''id-t-r'']"
proof -
  have inf: "snd (onAddIncome (''t'', ''r'')
          (salary_form\<lparr>incomeForm := (incomeForm salary_form)\<lparr>fi_amount := ''Infinity''\<rparr>\<rparr>))
     = (''Income added'', success) \<and>
   map i_amount (income (fst (onAddIncome (''t'', ''r'')
      (salary_form\<lparr>incomeForm := (incomeForm salary_form)\<lparr>fi_amount := ''Infinity''\<rparr>\<rparr>)))) = [PInf] \<and>
   \<not> positive_integer (Math_round (StringToNumber ''Infinity''))"
    by (simp add: onAddIncome_def Let_def salary_form_def initial_Page_def parse_defs js_gt_def
        positive_integer_def)
  have clash: "map i_id (income clash_page) = [''id-t-r''] \<and>
   snd (onAddIncome (''t'', ''r'') clash_page) = (''Income added'', success) \<and>
   map i_id (income (fst (onAddIncome (''t'', ''r'') clash_page))) = [''id-t-r'', ''id-t-r'']"
    by (simp add: onAddIncome_def Let_def clash_page_eq salary_form_def initial_Page_def
        Math_round_3000000 trim_examples js_gt_def uid_def)
  show ?thesis using inf clash by simp
qed

section \<open>Adding an expense record\<close>

text \<open>
  Claim C9, as amended. \<open>onAddExpense\<close> accepts the form if and only if the trimmed date,
  the trimmed category and the trimmed description are not empty and the rounded amount
  is greater than 0 (a strictly positive integer or \<^verbatim>\<open>+Infinity\<close>). The category set is
  not consulted: the outcome is the same whatever the category set holds. On acceptance
  one row with the trimmed category as free text is appended; on rejection the state is
  unchanged.
\<close>

theorem onAddExpense_validation:
  "let amount = Math_round (StringToNumber (fe_amount (expenseForm st)));
       valid = (trim (fe_date (expenseForm st)) \<noteq> [] \<and> trim (fe_category (expenseForm st)) \<noteq> [] \<and>
                trim (fe_desc (expenseForm st)) \<noteq> [] \<and>
                (positive_integer amount \<or> amount = PInf));
       res = onAddExpense src st
   in (valid \<longrightarrow>
         expenses (fst res) =
           expenses st @ [\<lparr>e_id = uid src, e_date = trim (fe_date (expenseForm st)),
                           e_category = trim (fe_category (expenseForm st)),
                           e_desc = trim (fe_desc (expenseForm st)), e_amount = amount,
                           e_notes = Some (trim (fe_notes (expenseForm st)))\<rparr>] \<and>
         snd res = (''Expense added'', success)) \<and>
      (\<not> valid \<longrightarrow> res = (st, (''Please fix the errors above.'', error))) \<and>
      snd (onAddExpense src (st\<lparr>categories := cs\<rparr>)) = snd res"
  unfolding Let_def js_gt_round_iff[symmetric]
  by (auto simp add: onAddExpense_def Let_def)

theorem onAddExpense_validation_witness:
  "expenses (fst (onAddExpense (''t'', ''r'') crypto_form)) =
     [\<lparr>e_id = ''id-t-r'', e_date = ''2024-01-01'', e_category = ''Crypto'', e_desc = ''Coins'',
       e_amount = Fin 35000, e_notes = Some []\<rparr>] \<and>
   snd (onAddExpense (''t'', ''r'') (crypto_form\<lparr>categories := []\<rparr>)) = (''Expense added'', success) \<and>
   onAddExpense (''t'', ''r'') (crypto_form\<lparr>expenseForm := (expenseForm crypto_form)\<lparr>fe_category := '' ''\<rparr>\<rparr>)
     = (crypto_form\<lparr>expenseForm := (expenseForm crypto_form)\<lparr>fe_category := '' ''\<rparr>\<rparr>,
        (''Please fix the errors above.'', error))"
proof -
  have pi: "positive_integer (Fin 35000)" by (simp add: positive_integer_def)
  show ?thesis
    using onAddExpense_validation[of crypto_form "(''t'', ''r'')" "[]"]
      onAddExpense_validation[of
        "crypto_form\<lparr>expenseForm := (expenseForm crypto_form)\<lparr>fe_category := '' ''\<rparr>\<rparr>"
        "(''t'', ''r'')" "[]"]
    by (simp add: Let_def crypto_form_def initial_Page_def Math_round_35000 trim_examples pi
        uid_def)
qed

text \<open>
  The claim as written fails: an expense whose category is not in the category set is
  accepted.
\<close>

theorem onAddExpense_unlisted_category:
  "''Crypto'' \<notin> set (categories crypto_form) \<and>
   snd (onAddExpense (''t'', ''r'') crypto_form) = (''Expense added'', success) \<and>
   map e_category (expenses (fst (onAddExpense (''t'', ''r'') crypto_form))) = [''Crypto'']"
  by (simp add: onAddExpense_def Let_def crypto_form_def initial_Page_def Math_round_35000
      trim_examples js_gt_def DEFAULT_CATEGORIES_def)

section \<open>Repair of imported entries\<close>

text \<open>
  Claim C1. The import repairs a missing identifier, date, description and category as
  the claim says, and maps a negative amount to 0; but an amount that is a non-numeric
  string is not mapped to 0. Importing one income entry whose amount is the string
  \<^verbatim>\<open>abc\<close> succeeds and stores the amount NaN.
\<close>

theorem import_non_numeric_amount:
  "map i_amount (income (fst (onFilePicked src True
      (Parsed \<lparr>d_income = Some [Some \<lparr>ri_id = None, ri_date = Some ''2024-01-01'',
                 ri_desc = Some ''X'', ri_amount = JStr ''abc'', ri_notes = None\<rparr>],
               d_expenses = Some [], d_categories = Some []\<rparr>) st))) = [NaN] \<and>
   snd (onFilePicked src True
      (Parsed \<lparr>d_income = Some [Some \<lparr>ri_id = None, ri_date = Some ''2024-01-01'',
                 ri_desc = Some ''X'', ri_amount = JStr ''abc'', ri_notes = None\<rparr>],
               d_expenses = Some [], d_categories = Some []\<rparr>) st) = ImportSuccessful"
  by (simp add: onFilePicked_def or_zero_def parse_defs)

text \<open>
  The example of the specification: one income entry with amount \<open>-50\<close> and no
  identifier, no expenses and an empty category list.
\<close>

lemma import_negative_amount_example:
  "onFilePicked src True
      (Parsed \<lparr>d_income = Some [Some \<lparr>ri_id = None, ri_date = Some ''2024-01-01'',
                 ri_desc = Some ''X'', ri_amount = JNum (Fin (- 50)), ri_notes = None\<rparr>],
               d_expenses = Some [], d_categories = Some []\<rparr>) st
   = (st\<lparr>income := [\<lparr>i_id = uid (src 0), i_date = ''2024-01-01'', i_desc = ''X'',
                       i_amount = Fin 0, i_notes = Some []\<rparr>],
         expenses := [], categories := DEFAULT_CATEGORIES\<rparr>, ImportSuccessful)"
  by (simp add: onFilePicked_def or_zero_def or_uid_def or_text_def Array_from_Set_def
      DEFAULT_CATEGORIES_def)

text \<open>An entry that is \<^verbatim>\<open>null\<close> is not repaired: the whole import fails.\<close>

lemma import_null_entry:
  "onFilePicked src True
     (Parsed \<lparr>d_income = Some [None], d_expenses = Some [], d_categories = None\<rparr>) st
   = (st, ImportFailed TypeError)"
  by (simp add: onFilePicked_def)

section \<open>The exchange rate in memory\<close>

text \<open>
  Claim C5. The refresh checks the fetched USD-per-KRW value, not the rate derived from
  it. For the smallest positive binary64 value \<open>2\<^sup>-\<^sup>1\<^sup>0\<^sup>7\<^sup>4\<close> (written \<^verbatim>\<open>5e-324\<close>) the
  check passes, the inverse overflows, and \<^verbatim>\<open>+Infinity\<close> becomes the rate in memory and
  is handed to storage.
\<close>

theorem refreshRate_overflow:
  "refreshRate (Response True (Some (JNum (Fin (pow2 (- 1074)))))) False now (Fin 1388)
   = (PInf, Persisted PInf now)"
  using pow2_pos[of "- 1074"] by (simp add: refreshRate_def Let_def round_double_overflow_example)

theorem refreshRate_overflow_witness:
  "isFinite (ToNumber (JNum (Fin (pow2 (- 1074))))) \<and>
   js_gt (ToNumber (JNum (Fin (pow2 (- 1074))))) (Fin 0) \<and>
   \<not> isFinite (fst (refreshRate (Response True (Some (JNum (Fin (pow2 (- 1074)))))) False
                     (Fin 1700000000000) (Fin 1388)))"
  using refreshRate_overflow[of "Fin 1700000000000"] pow2_pos[of "- 1074"]
  by (simp add: js_gt_def)

text \<open>
  The other parts of the claim hold: a stored rate is adopted on load only when it is
  finite and positive, and a failed refresh keeps the rate in memory.
\<close>

lemma loadRate_finite_positive:
  "loadRate got current = current \<or>
   (isFinite (loadRate got current) \<and> js_gt (loadRate got current) (Fin 0))"
  by (cases got) (auto simp add: loadRate_def Let_def js_gt_def split: option.split
      elim: js_le.elims)

lemma refreshRate_failure_keeps:
  "fetched = NetworkError \<or> fetched = Response False body \<or> fetched = Response True None \<or>
   (fetched = Response True (Some usd) \<and> (\<not> isFinite (ToNumber usd) \<or> js_le (ToNumber usd) (Fin 0)))
   \<Longrightarrow> fst (refreshRate fetched cancelled now current) = current"
  by (auto simp add: refreshRate_def Let_def)

section \<open>Staleness of the cached rate\<close>

text \<open>
  Claim C4, as amended. With the maximum age fixed at 12 hours, the test is true when the
  storage read throws or the stored timestamp converts to NaN or an infinity, and
  otherwise it is true exactly when \<^verbatim>\<open>now - lastFetched\<close> (in binary64) is greater than
  the maximum age. A timestamp that is not on record converts to 0, so the test is then
  true exactly when \<^verbatim>\<open>now\<close> is more than 12 hours after the epoch. For integer
  milliseconds the comparison is exact: false at the 12 hour boundary and one
  millisecond before it, true one millisecond after it.
\<close>

theorem shouldRefresh_staleness:
  "shouldRefresh now Throws \<and>
   (shouldRefresh now (Returns item) \<longleftrightarrow>
      \<not> isFinite (Number_of_item item) \<or>
      js_gt (js_sub now (Number_of_item item)) RATE_MAX_AGE_MS) \<and>
   Number_of_item None = Fin 0 \<and>
   (\<forall>n l. Number_of_item item = Fin (of_int l) \<and> \<bar>n - l\<bar> < 2 ^ 53 \<longrightarrow>
      shouldRefresh (Fin (of_int n)) (Returns item) = (43200000 < n - l))"
proof -
  have "shouldRefresh (Fin (of_int n)) (Returns item) = (43200000 < n - l)"
    if "Number_of_item item = Fin (of_int l)" "\<bar>n - l\<bar> < 2 ^ 53" for n l
  proof -
    have "(43200000 < (of_int (n - l) :: rat)) = (43200000 < n - l)"
      using of_int_less_iff[of 43200000 "n - l", where ?'a = rat] by simp
    then show ?thesis
      using that js_sub_int[OF that(2)]
      by (simp add: shouldRefresh_def Let_def RATE_MAX_AGE_MS_value js_gt_def)
  qed
  then show ?thesis
    by (simp add: shouldRefresh_def Let_def Number_of_item_def)
qed

theorem shouldRefresh_staleness_witness:
  "\<not> shouldRefresh (Fin 1699999999999) (Returns (Some ''1699956800000'')) \<and>
   shouldRefresh (Fin 1700000000001) (Returns (Some ''1699956800000'')) \<and>
   shouldRefresh (Fin 1700000000000) (Returns None) \<and>
   shouldRefresh (Fin 1700000000000) (Returns (Some ''abc''))"
proof -
  have a: "Number_of_item (Some ''1699956800000'') = Fin (of_int 1699956800000)"
    by (simp add: Number_of_item_def StringToNumber_timestamp)
  have b: "Number_of_item (Some ''abc'') = NaN"
    by (simp add: Number_of_item_def parse_defs)
  have c: "Number_of_item None = Fin (of_int 0)"
    by (simp add: Number_of_item_def)
  note exact = shouldRefresh_staleness[THEN conjunct2, THEN conjunct2, THEN conjunct2, rule_format]
  have 1: "shouldRefresh (Fin (of_int 1699999999999)) (Returns (Some ''1699956800000''))
           = (43200000 < (1699999999999::int) - 1699956800000)"
    by (rule exact) (simp add: a)
  have 2: "shouldRefresh (Fin (of_int 1700000000001)) (Returns (Some ''1699956800000''))
           = (43200000 < (1700000000001::int) - 1699956800000)"
    by (rule exact) (simp add: a)
  have 3: "shouldRefresh (Fin (of_int 1700000000000)) (Returns None)
           = (43200000 < (1700000000000::int) - 0)"
    by (rule exact) (simp add: c)
  have 4: "shouldRefresh (Fin 1700000000000) (Returns (Some ''abc''))"
    using shouldRefresh_staleness[of "Fin 1700000000000" "Some ''abc''"] b by simp
  show ?thesis using 1 2 3 4 by simp
qed

text \<open>
  The claim as written fails where no timestamp is on record and the clock is within 12
  hours of the epoch.
\<close>

theorem shouldRefresh_epoch: "\<not> shouldRefresh (Fin 0) (Returns None)"
  by (simp add: shouldRefresh_def Let_def Number_of_item_def js_sub_def round_double_def
      RATE_MAX_AGE_MS_value js_gt_def)


section \<open>Export followed by import\<close>

lemma reimported_amount:
  "nonneg_finite a \<Longrightarrow> Math_max (Fin 0) (ToNumber (or_zero (json_number a))) = a"
  by (cases a) (auto simp add: nonneg_finite_def json_number_def or_zero_def)

lemma import_income_exported:
  assumes "\<forall>r \<in> set rows. nonneg_finite (i_amount r)"
  shows "\<exists>rows' k'. import_income src k (map (\<lambda>r. Some \<lparr>ri_id = Some (i_id r), ri_date = Some (i_date r),
                                   ri_desc = Some (i_desc r), ri_amount = json_number (i_amount r),
                                   ri_notes = i_notes r\<rparr>) rows) = Some (rows', k') \<and>
           list_all2 income_kept rows rows'"
  using assms
proof (induction rows arbitrary: k)
  case Nil
  then show ?case by simp
next
  case (Cons r rows)
  from Cons.prems have a: "nonneg_finite (i_amount r)" and rest: "\<forall>r \<in> set rows. nonneg_finite (i_amount r)"
    by simp_all
  from Cons.IH[OF rest, of "snd (or_uid src k (Some (i_id r)))"]
  obtain rows' k' where ih: "import_income src (snd (or_uid src k (Some (i_id r))))
       (map (\<lambda>r. Some \<lparr>ri_id = Some (i_id r), ri_date = Some (i_date r),
                                   ri_desc = Some (i_desc r), ri_amount = json_number (i_amount r),
                                   ri_notes = i_notes r\<rparr>) rows) = Some (rows', k')"
      and kept: "list_all2 income_kept rows rows'" by blast
  have hd: "income_kept r \<lparr>i_id = fst (or_uid src k (Some (i_id r))), i_date = or_text (Some (i_date r)) [],
                 i_desc = or_text (Some (i_desc r)) [],
                 i_amount = Math_max (Fin 0) (ToNumber (or_zero (json_number (i_amount r)))),
                 i_notes = Some (or_text (i_notes r) [])\<rparr>"
    using reimported_amount[OF a] by (simp add: income_kept_def or_text_def or_uid_def uid_def)
  show ?case
    using ih kept hd by simp
qed

lemma import_expenses_exported:
  assumes "\<forall>r \<in> set rows. nonneg_finite (e_amount r)"
  shows "\<exists>rows' k'. import_expenses src k (map (\<lambda>r. Some \<lparr>re_id = Some (e_id r), re_date = Some (e_date r),
                                   re_category = Some (e_category r), re_desc = Some (e_desc r),
                                   re_amount = json_number (e_amount r),
                                   re_notes = e_notes r\<rparr>) rows) = Some (rows', k') \<and>
           list_all2 expense_kept rows rows'"
  using assms
proof (induction rows arbitrary: k)
  case Nil
  then show ?case by simp
next
  case (Cons r rows)
  from Cons.prems have a: "nonneg_finite (e_amount r)" and rest: "\<forall>r \<in> set rows. nonneg_finite (e_amount r)"
    by simp_all
  from Cons.IH[OF rest, of "snd (or_uid src k (Some (e_id r)))"]
  obtain rows' k' where ih: "import_expenses src (snd (or_uid src k (Some (e_id r))))
       (map (\<lambda>r. Some \<lparr>re_id = Some (e_id r), re_date = Some (e_date r),
                                   re_category = Some (e_category r), re_desc = Some (e_desc r),
                                   re_amount = json_number (e_amount r),
                                   re_notes = e_notes r\<rparr>) rows) = Some (rows', k')"
      and kept: "list_all2 expense_kept rows rows'" by blast
  have hd: "expense_kept r \<lparr>e_id = fst (or_uid src k (Some (e_id r))), e_date = or_text (Some (e_date r)) [],
                 e_category = or_text (Some (e_category r)) ''Other'',
                 e_desc = or_text (Some (e_desc r)) [],
                 e_amount = Math_max (Fin 0) (ToNumber (or_zero (json_number (e_amount r)))),
                 e_notes = Some (or_text (e_notes r) [])\<rparr>"
    using reimported_amount[OF a] by (simp add: expense_kept_def or_text_def or_uid_def uid_def)
  show ?case
    using ih kept hd by simp
qed

lemma remdups_append_subset: "set xs \<subseteq> set ys \<Longrightarrow> remdups (xs @ ys) = remdups ys"
  by (induction xs) auto

lemma Array_from_Set_absorb:
  "distinct xs \<Longrightarrow> set ys \<subseteq> set xs \<Longrightarrow> Array_from_Set (xs @ ys) = xs"
  by (simp add: Array_from_Set_def remdups_append_subset distinct_remdups_id)

lemma expense_kept_categories:
  "list_all2 expense_kept rows rows' \<Longrightarrow> \<forall>r \<in> set rows. e_category r \<noteq> [] \<and> e_category r \<in> S
   \<Longrightarrow> set (map e_category rows') \<subseteq> S"
  by (induction rows rows' rule: list_all2_induct) (auto simp add: expense_kept_def or_text_def)

lemma crypto_form_reachable:
  "fst (clearAll True
     ((fst (onAddCategory (Some ''Crypto'') initial_Page))
        \<lparr>expenseForm := (expenseForm (fst (onAddCategory (Some ''Crypto'') initial_Page)))
           \<lparr>fe_date := ''2024-01-01'', fe_desc := ''Coins'', fe_amount := ''35000''\<rparr>\<rparr>))
   = crypto_form"
  by (simp add: clearAll_def onAddCategory_def crypto_form_def initial_Page_def trim_examples
      toLowerCase_def DEFAULT_CATEGORIES_def)

lemma orphan_page_eq:
  "orphan_page = initial_Page\<lparr>expenses := [\<lparr>e_id = ''id-t-r'', e_date = ''2024-01-01'',
       e_category = ''Crypto'', e_desc = ''Coins'', e_amount = Fin 35000, e_notes = Some []\<rparr>],
     expenseForm := \<lparr>fe_date = ''2024-01-01'', fe_category = [], fe_desc = [], fe_amount = [],
       fe_notes = []\<rparr>\<rparr>"
  by (simp add: orphan_page_def onAddExpense_def Let_def crypto_form_def initial_Page_def
      Math_round_35000 trim_examples js_gt_def uid_def)

lemma infinite_income_page_eq:
  "infinite_income_page = initial_Page\<lparr>income := [\<lparr>i_id = ''id-t-r'', i_date = ''2024-01-01'',
       i_desc = ''Salary'', i_amount = PInf, i_notes = Some []\<rparr>],
     incomeForm := \<lparr>fi_date = ''2024-01-01'', fi_desc = [], fi_amount = [], fi_notes = []\<rparr>\<rparr>"
  by (simp add: infinite_income_page_def onAddIncome_def Let_def salary_form_def initial_Page_def
      parse_defs js_gt_def uid_def)

lemma set_Array_from_Set: "set (Array_from_Set zs) = set zs"
  by (simp add: Array_from_Set_def)

lemma distinct_Array_from_Set: "distinct (Array_from_Set zs)"
  by (simp add: Array_from_Set_def)

lemma Array_from_Set_eq_iff:
  "Array_from_Set (xs @ ys) = xs \<longleftrightarrow> distinct xs \<and> set ys \<subseteq> set xs"
proof
  assume e: "Array_from_Set (xs @ ys) = xs"
  have "distinct xs" using distinct_Array_from_Set[of "xs @ ys"] e by simp
  moreover have "set ys \<subseteq> set xs" using set_Array_from_Set[of "xs @ ys"] e by auto
  ultimately show "distinct xs \<and> set ys \<subseteq> set xs" by simp
next
  assume "distinct xs \<and> set ys \<subseteq> set xs"
  then show "Array_from_Set (xs @ ys) = xs" by (simp add: Array_from_Set_absorb)
qed

lemma expense_kept_map_category:
  "list_all2 expense_kept rows rows' \<Longrightarrow>
   map e_category rows' = map (\<lambda>r. or_text (Some (e_category r)) ''Other'') rows"
  by (induction rows rows' rule: list_all2_induct) (simp_all add: expense_kept_def)

lemma categories_preserved_iff:
  assumes "list_all2 expense_kept rows rows'"
  shows "Array_from_Set ((if cs = [] then DEFAULT_CATEGORIES else cs) @ map e_category rows') = cs
     \<longleftrightarrow> cs \<noteq> [] \<and> distinct cs \<and>
         (\<forall>r \<in> set rows. or_text (Some (e_category r)) ''Other'' \<in> set cs)"
proof (cases "cs = []")
  case True
  have "set (Array_from_Set (DEFAULT_CATEGORIES @ map e_category rows')) \<noteq> {}"
    by (simp add: set_Array_from_Set DEFAULT_CATEGORIES_def)
  then have "Array_from_Set (DEFAULT_CATEGORIES @ map e_category rows') \<noteq> []" by auto
  then show ?thesis using True by auto
next
  case False
  then show ?thesis
    by (auto simp add: Array_from_Set_eq_iff expense_kept_map_category[OF assms])
qed

text \<open>
  Claim C3, as amended. For every state whose amounts are finite and not negative, and
  every rate, exporting and then importing the produced document with confirmation
  succeeds and replaces the ledger by an equivalent one: every record keeps its date,
  description and amount, an expense keeps its category (an empty category becomes
  \<^verbatim>\<open>Other\<close>), absent notes become the empty string, and an identifier is regenerated
  only where it was empty. The category set becomes the duplicate-free union, in order
  of first occurrence, of the exported set (the defaults if it was empty) and the
  categories of the expenses. It is the exported set itself if and only if that set is
  not empty, has no duplicates and holds the category of every expense, an empty
  category counted as \<^verbatim>\<open>Other\<close>.
\<close>

theorem export_import_roundtrip:
  assumes "\<forall>r \<in> set (income st). nonneg_finite (i_amount r)"
    and "\<forall>r \<in> set (expenses st). nonneg_finite (e_amount r)"
  shows "\<exists>inc' exp'.
     onFilePicked src True (stringify_parse (fst (exportJSON isoNow st))) st =
       (st\<lparr>income := inc', expenses := exp',
           categories := Array_from_Set
             ((if categories st = [] then DEFAULT_CATEGORIES else categories st) @
              map e_category exp')\<rparr>, ImportSuccessful) \<and>
     list_all2 income_kept (income st) inc' \<and>
     list_all2 expense_kept (expenses st) exp' \<and>
     (categories st \<noteq> [] \<and> distinct (categories st) \<and>
      (\<forall>r \<in> set (expenses st). e_category r \<noteq> [] \<and> e_category r \<in> set (categories st)) \<longrightarrow>
      Array_from_Set ((if categories st = [] then DEFAULT_CATEGORIES else categories st) @
              map e_category exp') = categories st) \<and>
     (Array_from_Set ((if categories st = [] then DEFAULT_CATEGORIES else categories st) @
              map e_category exp') = categories st \<longleftrightarrow>
      categories st \<noteq> [] \<and> distinct (categories st) \<and>
      (\<forall>r \<in> set (expenses st).
         or_text (Some (e_category r)) ''Other'' \<in> set (categories st)))"
proof -
  from import_income_exported[OF assms(1), of src 0]
  obtain inc' k where i: "import_income src 0 (map (\<lambda>r. Some \<lparr>ri_id = Some (i_id r), ri_date = Some (i_date r),
                                   ri_desc = Some (i_desc r), ri_amount = json_number (i_amount r),
                                   ri_notes = i_notes r\<rparr>) (income st)) = Some (inc', k)"
     and ik: "list_all2 income_kept (income st) inc'" by blast
  from import_expenses_exported[OF assms(2), of src k]
  obtain exp' k' where e: "import_expenses src k (map (\<lambda>r. Some \<lparr>re_id = Some (e_id r), re_date = Some (e_date r),
                                   re_category = Some (e_category r), re_desc = Some (e_desc r),
                                   re_amount = json_number (e_amount r),
                                   re_notes = e_notes r\<rparr>) (expenses st)) = Some (exp', k')"
     and ek: "list_all2 expense_kept (expenses st) exp'" by blast
  have run: "onFilePicked src True (stringify_parse (fst (exportJSON isoNow st))) st =
       (st\<lparr>income := inc', expenses := exp',
           categories := Array_from_Set
             ((if categories st = [] then DEFAULT_CATEGORIES else categories st) @
              map e_category exp')\<rparr>, ImportSuccessful)"
    using i e by (simp add: onFilePicked_def stringify_parse_def exportJSON_def)
  have cats: "Array_from_Set ((if categories st = [] then DEFAULT_CATEGORIES else categories st) @
              map e_category exp') = categories st"
    if "categories st \<noteq> []" "distinct (categories st)"
       "\<forall>r \<in> set (expenses st). e_category r \<noteq> [] \<and> e_category r \<in> set (categories st)"
    using that Array_from_Set_absorb[OF that(2) expense_kept_categories[OF ek that(3)]] by simp
  note exact = categories_preserved_iff[OF ek, of "categories st"]
  show ?thesis using run ik ek cats exact by blast
qed


theorem export_import_roundtrip_witness:
  "snd (onFilePicked (\<lambda>k. (''t'', ''r'')) True
      (stringify_parse (fst (exportJSON ''2024-01-03T00:00:00.000Z'' ledger_example)))
      ledger_example) = ImportSuccessful \<and>
   categories (fst (onFilePicked (\<lambda>k. (''t'', ''r'')) True
      (stringify_parse (fst (exportJSON ''2024-01-03T00:00:00.000Z'' ledger_example)))
      ledger_example)) = categories ledger_example \<and>
   income (fst (onFilePicked (\<lambda>k. (''t'', ''r'')) True
      (stringify_parse (fst (exportJSON ''2024-01-03T00:00:00.000Z'' ledger_example)))
      ledger_example)) = income ledger_example \<and>
   map e_category (expenses (fst (onFilePicked (\<lambda>k. (''t'', ''r'')) True
      (stringify_parse (fst (exportJSON ''2024-01-03T00:00:00.000Z'' ledger_example)))
      ledger_example))) = [''Other''] \<and>
   map e_amount (expenses (fst (onFilePicked (\<lambda>k. (''t'', ''r'')) True
      (stringify_parse (fst (exportJSON ''2024-01-03T00:00:00.000Z'' ledger_example)))
      ledger_example))) = [Fin 9000] \<and>
   map e_notes (expenses (fst (onFilePicked (\<lambda>k. (''t'', ''r'')) True
      (stringify_parse (fst (exportJSON ''2024-01-03T00:00:00.000Z'' ledger_example)))
      ledger_example))) = [Some []]"
proof -
  have h1: "\<forall>r \<in> set (income ledger_example). nonneg_finite (i_amount r)"
    by (simp add: ledger_example_def nonneg_finite_def)
  have h2: "\<forall>r \<in> set (expenses ledger_example). nonneg_finite (e_amount r)"
    by (simp add: ledger_example_def nonneg_finite_def)
  have h3: "categories ledger_example \<noteq> [] \<and> distinct (categories ledger_example) \<and>
      (\<forall>r \<in> set (expenses ledger_example).
         e_category r \<noteq> [] \<and> e_category r \<in> set (categories ledger_example))"
    by (simp add: ledger_example_def initial_Page_def DEFAULT_CATEGORIES_def)
  from export_import_roundtrip[OF h1 h2, of "\<lambda>k. (''t'', ''r'')" "''2024-01-03T00:00:00.000Z''"]
  obtain inc' exp' where
    run: "onFilePicked (\<lambda>k. (''t'', ''r'')) True
      (stringify_parse (fst (exportJSON ''2024-01-03T00:00:00.000Z'' ledger_example)))
      ledger_example =
       (ledger_example\<lparr>income := inc', expenses := exp',
           categories := Array_from_Set
             ((if categories ledger_example = [] then DEFAULT_CATEGORIES
               else categories ledger_example) @ map e_category exp')\<rparr>, ImportSuccessful)"
    and ik: "list_all2 income_kept (income ledger_example) inc'"
    and ek: "list_all2 expense_kept (expenses ledger_example) exp'"
    and cats: "Array_from_Set ((if categories ledger_example = [] then DEFAULT_CATEGORIES
               else categories ledger_example) @ map e_category exp') = categories ledger_example"
    using h3 by blast
  have i: "inc' = income ledger_example"
    using ik by (auto simp add: ledger_example_def list_all2_Cons1 income_kept_def or_text_def)
  have e: "map e_category exp' = [''Other''] \<and> map e_amount exp' = [Fin 9000] \<and>
           map e_notes exp' = [Some []]"
    using ek by (auto simp add: ledger_example_def list_all2_Cons1 expense_kept_def or_text_def)
  show ?thesis
    unfolding run using cats i e by simp
qed

text \<open>
  The claim as written fails on two states that the handlers reach: an expense whose
  category is not in the category set makes the set grow, and an amount of
  \<^verbatim>\<open>+Infinity\<close> comes back as 0.
\<close>

theorem export_import_changes_ledger:
  "categories orphan_page = DEFAULT_CATEGORIES \<and>
   categories (fst (onFilePicked (\<lambda>k. (''t'', ''r'')) True
      (stringify_parse (fst (exportJSON ''2024-01-03T00:00:00.000Z'' orphan_page))) orphan_page))
     = DEFAULT_CATEGORIES @ [''Crypto''] \<and>
   map i_amount (income infinite_income_page) = [PInf] \<and>
   map i_amount (income (fst (onFilePicked (\<lambda>k. (''t'', ''r'')) True
      (stringify_parse (fst (exportJSON ''2024-01-03T00:00:00.000Z'' infinite_income_page)))
      infinite_income_page))) = [Fin 0]"
  by (simp add: orphan_page_eq infinite_income_page_eq onFilePicked_def stringify_parse_def
      exportJSON_def initial_Page_def json_number_def or_zero_def or_uid_def or_text_def
      Array_from_Set_def DEFAULT_CATEGORIES_def)


section \<open>Category breakdown\<close>

lemma nonneg_round_double: "0 \<le> q \<Longrightarrow> nonneg_num (round_double q)"
proof (cases "q = 0")
  case True
  then show ?thesis by (simp add: round_double_def nonneg_num_def)
next
  case False
  assume "0 \<le> q"
  with False have q: "0 < q" by simp
  from round_pos_cases[OF q] show ?thesis using q by (auto simp add: round_double_def nonneg_num_def)
qed

lemma nonneg_js_add: "nonneg_num a \<Longrightarrow> nonneg_num b \<Longrightarrow> nonneg_num (js_add a b)"
proof (cases a; cases b)
  fix x y assume "a = Fin x" "b = Fin y" "nonneg_num a" "nonneg_num b"
  then show ?thesis using nonneg_round_double[of "x + y"] by (simp add: nonneg_num_def)
qed (simp_all add: nonneg_num_def)

lemma nonneg_foldl:
  "nonneg_num s \<Longrightarrow> \<forall>y \<in> set ys. nonneg_num y \<Longrightarrow> nonneg_num (foldl js_add s ys)"
  by (induction ys arbitrary: s) (simp_all add: nonneg_js_add)

lemma slot_or_zero_nonneg: "nonneg_num s \<Longrightarrow> slot_or_zero (Some (SNum s)) = SNum s"
  by (cases s) (auto simp add: nonneg_num_def)

lemma slot_step_nonneg:
  "nonneg_num s \<Longrightarrow> slot_step (Some (SNum s)) x = Some (SNum (js_add s (amount_or_zero x)))"
  unfolding slot_step_def by (simp only: slot_or_zero_nonneg slot_plus.simps)

lemma slot_fold_nonneg:
  "nonneg_num s \<Longrightarrow> \<forall>x \<in> set xs. nonneg_num (amount_or_zero x) \<Longrightarrow>
   foldl slot_step (Some (SNum s)) xs = Some (SNum (foldl js_add s (map amount_or_zero xs)))"
proof (induction xs arbitrary: s)
  case Nil
  then show ?case by simp
next
  case (Cons x xs)
  have n: "nonneg_num (js_add s (amount_or_zero x))"
    using Cons.prems by (simp add: nonneg_js_add)
  show ?case using Cons.IH[OF n] Cons.prems(2) by (simp add: slot_step_nonneg[OF Cons.prems(1)])
qed

lemma slot_fold_None:
  assumes "\<forall>x \<in> set xs. nonneg_num (amount_or_zero x)"
  shows "slot_or_zero (foldl slot_step None xs) = SNum (js_sum (map amount_or_zero xs))"
proof (cases xs)
  case Nil
  then show ?thesis by (simp add: js_sum_def)
next
  case (Cons x ys)
  have z: "nonneg_num (Fin 0)" by (simp add: nonneg_num_def)
  have n: "nonneg_num (js_add (Fin 0) (amount_or_zero x))"
    using assms Cons z by (simp add: nonneg_js_add)
  have ys: "\<forall>y \<in> set ys. nonneg_num (amount_or_zero y)" using assms Cons by simp
  have s: "slot_step None x = Some (SNum (js_add (Fin 0) (amount_or_zero x)))"
    by (simp add: slot_step_def)
  have f: "nonneg_num (foldl js_add (js_add (Fin 0) (amount_or_zero x)) (map amount_or_zero ys))"
    using n ys by (simp add: nonneg_foldl)
  have "foldl slot_step None xs
        = Some (SNum (foldl js_add (js_add (Fin 0) (amount_or_zero x)) (map amount_or_zero ys)))"
    using slot_fold_nonneg[OF n ys] by (simp add: Cons s)
  then have "slot_or_zero (foldl slot_step None xs)
        = SNum (foldl js_add (js_add (Fin 0) (amount_or_zero x)) (map amount_or_zero ys))"
    by (simp only: slot_or_zero_nonneg[OF f])
  then show ?thesis by (simp add: Cons js_sum_def)
qed

lemma proto_not_key: "c \<notin> set Object_prototype_keys \<Longrightarrow> c \<noteq> ''__proto__''"
  by (auto simp add: Object_prototype_keys_def)

lemma breakdown_at:
  assumes "c \<notin> set Object_prototype_keys"
  shows "(foldl (\<lambda>byCat e. set_prop byCat (e_category e)
                        (slot_plus (slot_or_zero (get_prop byCat (e_category e)))
                                   (amount_or_zero (e_amount e)))) m es) c
         = foldl slot_step (m c) (map e_amount [e \<leftarrow> es. e_category e = c])"
proof (induction es arbitrary: m)
  case Nil
  then show ?case by simp
next
  case (Cons e es)
  define m' where "m' = set_prop m (e_category e)
     (slot_plus (slot_or_zero (get_prop m (e_category e))) (amount_or_zero (e_amount e)))"
  have g: "get_prop m c = m c" using assms by (simp add: get_prop_def split: option.split)
  have m'c: "m' c = (if e_category e = c then slot_step (m c) (e_amount e) else m c)"
    using proto_not_key[OF assms] g by (auto simp add: m'_def set_prop_def slot_step_def)
  have "(foldl (\<lambda>byCat e. set_prop byCat (e_category e)
                        (slot_plus (slot_or_zero (get_prop byCat (e_category e)))
                                   (amount_or_zero (e_amount e)))) m (e # es)) c
        = foldl slot_step (m' c) (map e_amount [e \<leftarrow> es. e_category e = c])"
    unfolding foldl_Cons m'_def[symmetric] by (rule Cons.IH)
  then show ?case by (simp add: m'c)
qed

lemma breakdown_amt_fold:
  assumes "c \<notin> set Object_prototype_keys"
  shows "breakdown_amt st c =
     slot_or_zero (foldl slot_step None (map e_amount [e \<leftarrow> expenses st. e_category e = c]))"
proof -
  have "get_prop (breakdown (expenses st)) c = breakdown (expenses st) c"
    using assms by (simp add: get_prop_def split: option.split)
  then show ?thesis
    using breakdown_at[OF assms, of Map.empty "expenses st"]
    by (simp add: breakdown_amt_def breakdown_def)
qed

lemma expenseKRW_js_sum:
  "expenseKRW (totals st) = js_sum (map (\<lambda>e. amount_or_zero (e_amount e)) (expenses st))"
  by (simp add: expenseKRW_totals js_sum_def foldl_map)

lemma zero_div_or_one: "js_div (Fin 0) (or_one t) = Fin 0"
  by (cases t) (simp_all add: or_one_def round_double_def)

lemma self_percent:
  assumes "isFinite t" "js_gt t (Fin 0)"
  shows "js_mul (js_div t (or_one t)) (Fin 100) = Fin 100"
proof -
  from assms obtain q where t: "t = Fin q" and q: "0 < q" by (cases t) (auto simp add: js_gt_def)
  have "js_div t (or_one t) = Fin 1"
    using q round_double_int[of 1] by (simp add: t or_one_def)
  then show ?thesis using round_double_int[of 100] by simp
qed

lemmas breakdown_eval = breakdown_amt_def breakdown_def get_prop_def set_prop_def
  Object_prototype_keys_def amount_or_zero_def or_zero_def exp_row_def initial_Page_def

lemma constructor_page_eq:
  "constructor_page = initial_Page\<lparr>categories := DEFAULT_CATEGORIES @ [''constructor''],
     expenseForm := (expenseForm initial_Page)\<lparr>fe_category := ''constructor''\<rparr>\<rparr>"
  by (simp add: constructor_page_def onAddCategory_def initial_Page_def trim_def is_ws_def
      toLowerCase_def DEFAULT_CATEGORIES_def)

lemma thirds_sum:
  "js_sum [Fin 0, Fin 0, Fin 0, Fin 0, Fin 0, Fin (2345624805922133 / 70368744177664),
           Fin (2345624805922133 / 70368744177664), Fin (2345624805922133 / 70368744177664)]
   = Fin (7036874417766399 / 70368744177664)"
proof -
  have a1: "js_add (Fin 0) (Fin 0) = Fin 0" by (simp add: round_double_def)
  have a2: "js_add (Fin 0) (Fin (2345624805922133 / 70368744177664))
            = Fin (2345624805922133 / 70368744177664)"
    using round_double_exact[of 2345624805922133 "- 46"] by (simp add: pow2_def power_int_minus)
  have a3: "js_add (Fin (2345624805922133 / 70368744177664)) (Fin (2345624805922133 / 70368744177664))
            = Fin (2345624805922133 / 35184372088832)"
    using round_double_exact[of 2345624805922133 "- 45"] by (simp add: pow2_def power_int_minus)
  have a4: "js_add (Fin (2345624805922133 / 35184372088832)) (Fin (2345624805922133 / 70368744177664))
            = Fin (7036874417766399 / 70368744177664)"
    using round_double_exact[of 7036874417766399 "- 46"] by (simp add: pow2_def power_int_minus)
  show ?thesis by (simp only: js_sum_def foldl.simps a1 a2 a3 a4)
qed

lemma nat_amount_Fin: "nat_amount x \<Longrightarrow> x = Fin (of_int (amount_int x)) \<and> 0 \<le> amount_int x"
  by (cases x) (auto simp add: nat_amount_def amount_int_def)

lemma nat_amount_or_zero: "nat_amount x \<Longrightarrow> amount_or_zero x = x"
  by (cases x) (auto simp add: nat_amount_def amount_or_zero_def or_zero_def)

lemma nat_amount_nonneg: "nat_amount x \<Longrightarrow> nonneg_num (amount_or_zero x)"
  by (cases x) (auto simp add: nat_amount_def amount_or_zero_def or_zero_def nonneg_num_def)

lemma sum_amount_int_nonneg: "\<forall>x \<in> set xs. nat_amount x \<Longrightarrow> 0 \<le> sum_list (map amount_int xs)"
  by (induction xs) (auto dest: nat_amount_Fin)

lemma foldl_js_add_exact:
  "\<forall>x \<in> set xs. nat_amount x \<Longrightarrow> 0 \<le> s \<Longrightarrow> s + sum_list (map amount_int xs) < 2 ^ 53 \<Longrightarrow>
   foldl js_add (Fin (of_int s)) xs = Fin (of_int (s + sum_list (map amount_int xs)))"
proof (induction xs arbitrary: s)
  case Nil
  then show ?case by simp
next
  case (Cons x xs)
  from Cons.prems(1) have x: "x = Fin (of_int (amount_int x))" and n: "0 \<le> amount_int x"
    using nat_amount_Fin by auto
  have rest: "0 \<le> sum_list (map amount_int xs)" using Cons.prems(1) by (simp add: sum_amount_int_nonneg)
  have b: "\<bar>s + amount_int x\<bar> < 2 ^ 53" using Cons.prems(2,3) n rest by simp
  have step: "js_add (Fin (of_int s)) x = Fin (of_int (s + amount_int x))"
    using js_add_int[OF b] x by simp
  have "foldl js_add (Fin (of_int (s + amount_int x))) xs
        = Fin (of_int (s + amount_int x + sum_list (map amount_int xs)))"
    using Cons.prems n by (intro Cons.IH) simp_all
  then show ?case by (simp add: step add.assoc)
qed

lemma js_sum_exact:
  assumes "\<forall>x \<in> set xs. nat_amount x" "sum_list (map amount_int xs) < 2 ^ 53"
  shows "js_sum (map amount_or_zero xs) = Fin (of_int (sum_list (map amount_int xs)))"
proof -
  have "map amount_or_zero xs = xs" using assms(1) by (simp add: map_idI nat_amount_or_zero)
  then show ?thesis using foldl_js_add_exact[OF assms(1), of 0] assms(2) by (simp add: js_sum_def)
qed

lemma sum_filter_le:
  "\<forall>x \<in> set xs. 0 \<le> f x \<Longrightarrow> sum_list (map f (filter P xs)) \<le> (sum_list (map f xs) :: int)"
  by (induction xs) auto

lemma sum_list_pick:
  "distinct cs \<Longrightarrow> (\<Sum>c\<leftarrow>cs. if k = c then v else 0) = (if k \<in> set cs then v else (0::int))"
  by (induction cs) auto

lemma sum_by_category:
  "distinct cs \<Longrightarrow> \<forall>e \<in> set es. g e \<in> set cs \<Longrightarrow>
   (\<Sum>c\<leftarrow>cs. sum_list (map f [e \<leftarrow> es. g e = c])) = (sum_list (map f es) :: int)"
proof (induction es)
  case Nil
  then show ?case by simp
next
  case (Cons e es)
  have "(\<Sum>c\<leftarrow>cs. sum_list (map f [x \<leftarrow> e # es. g x = c]))
        = (\<Sum>c\<leftarrow>cs. (if g e = c then f e else 0) + sum_list (map f [x \<leftarrow> es. g x = c]))"
    by (rule arg_cong[where f = sum_list]) auto
  also have "\<dots> = (\<Sum>c\<leftarrow>cs. if g e = c then f e else 0)
                   + (\<Sum>c\<leftarrow>cs. sum_list (map f [x \<leftarrow> es. g x = c]))"
    by (simp add: sum_list_addf)
  also have "\<dots> = f e + sum_list (map f es)"
    using Cons by (simp add: sum_list_pick)
  finally show ?case by simp
qed

lemma exact_percent_sum:
  assumes "(\<Sum>c\<leftarrow>cs. a c) = (t::int)" "0 < t"
  shows "(\<Sum>c\<leftarrow>cs. of_int (a c) / of_int t * 100) = (100::rat)"
proof -
  have "(\<Sum>c\<leftarrow>cs. of_int (a c) / of_int t * 100) = (\<Sum>c\<leftarrow>cs. of_int (a c) * (100 / of_int t :: rat))"
    by (rule arg_cong[where f = sum_list]) simp
  also have "\<dots> = (\<Sum>c\<leftarrow>cs. (of_int (a c) :: rat)) * (100 / of_int t)"
    by (rule sum_list_mult_const)
  also have "(\<Sum>c\<leftarrow>cs. (of_int (a c) :: rat)) = of_int (\<Sum>c\<leftarrow>cs. a c)"
    by (induction cs) simp_all
  finally show ?thesis using assms by simp
qed

lemma breakdown_exact:
  assumes d: "distinct (categories st)"
    and k: "set (categories st) \<inter> set Object_prototype_keys = {}"
    and e: "\<forall>e \<in> set (expenses st). e_category e \<in> set (categories st) \<and> nat_amount (e_amount e)"
    and t: "0 < ledger_total st" "ledger_total st < 2 ^ 53"
  shows "(\<forall>c \<in> set (categories st).
            breakdown_amt st c = SNum (Fin (of_int (cat_total st c))) \<and>
            breakdown_pct st c =
              js_mul (js_div (Fin (of_int (cat_total st c))) (Fin (of_int (ledger_total st))))
                     (Fin 100)) \<and>
         expenseKRW (totals st) = Fin (of_int (ledger_total st)) \<and>
         (\<Sum>c\<leftarrow>categories st. of_int (cat_total st c) / of_int (ledger_total st) * 100) = (100::rat)"
proof -
  have all: "\<forall>x \<in> set (map e_amount (expenses st)). nat_amount x" using e by simp
  have tot: "expenseKRW (totals st) = Fin (of_int (ledger_total st))"
    using js_sum_exact[OF all] t(2)
    by (simp add: expenseKRW_js_sum ledger_total_def comp_def)
  have or1: "or_one (Fin (of_int (ledger_total st))) = Fin (of_int (ledger_total st))"
    using t(1) by (simp add: or_one_def)
  have row: "breakdown_amt st c = SNum (Fin (of_int (cat_total st c))) \<and>
            breakdown_pct st c =
              js_mul (js_div (Fin (of_int (cat_total st c))) (Fin (of_int (ledger_total st))))
                     (Fin 100)"
    if c: "c \<in> set (categories st)" for c
  proof -
    have ck: "c \<notin> set Object_prototype_keys" using c k by auto
    let ?xs = "map e_amount [e \<leftarrow> expenses st. e_category e = c]"
    have xs: "\<forall>x \<in> set ?xs. nat_amount x" using e by simp
    have nn: "\<forall>x \<in> set ?xs. nonneg_num (amount_or_zero x)" using xs nat_amount_nonneg by blast
    have "sum_list (map amount_int ?xs) \<le> ledger_total st"
      unfolding ledger_total_def
      using sum_filter_le[of "expenses st" "\<lambda>e. amount_int (e_amount e)" "\<lambda>e. e_category e = c"] e
      by (auto simp add: comp_def dest: nat_amount_Fin)
    then have lt: "sum_list (map amount_int ?xs) < 2 ^ 53" using t(2) by simp
    have amt: "breakdown_amt st c = SNum (Fin (of_int (cat_total st c)))"
      using slot_fold_None[OF nn] js_sum_exact[OF xs lt]
      by (simp add: breakdown_amt_fold[OF ck] cat_total_def comp_def)
    show ?thesis by (simp add: amt breakdown_pct_def tot or1)
  qed
  have part: "(\<Sum>c\<leftarrow>categories st. cat_total st c) = ledger_total st"
    unfolding cat_total_def ledger_total_def
    using sum_by_category[OF d, of "expenses st" e_category "\<lambda>e. amount_int (e_amount e)"] e by simp
  show ?thesis using row tot exact_percent_sum[OF part t(1)] by simp
qed

lemma breakdown_unused_category:
  assumes "c \<notin> set Object_prototype_keys" "[e \<leftarrow> expenses st. e_category e = c] = []"
  shows "breakdown_pct st c = Fin 0"
proof -
  have "breakdown_amt st c = SNum (Fin 0)" by (simp add: breakdown_amt_fold[OF assms(1)] assms(2))
  then show ?thesis by (simp add: breakdown_pct_def zero_div_or_one round_double_def)
qed

text \<open>
  Claim C8, as amended. The breakdown table has one row for every category of the
  category set, in order, whether or not an expense bears it. The percentage of a row is
  amount / (totalExpense || 1) * 100 in binary64: a total that is zero or NaN counts
  as 1, any other total is the divisor as it is. For a category that is not the name of
  a property of \<^verbatim>\<open>Object.prototype\<close>: with no expense bearing it the row reports the
  amount 0 and 0%; when the amounts of its expenses are not negative (a NaN amount
  counting as 0) the amount is their sum in ledger order; and when it bears all the
  expenses, their amounts are not negative and the total is finite and positive, its
  percentage is exactly 100.
  When the category set has no duplicates, holds no name of a property of
  \<^verbatim>\<open>Object.prototype\<close> and holds the category of every expense, every amount is a
  non-negative integer and the total is positive and below \<open>2\<^sup>5\<^sup>3\<close>, then the amount of
  every row and the total are the exact integer sums, the percentage of a row is the
  binary64 value of amount / total * 100, and the exact quotients amount / total * 100
  of all rows add up to 100.
\<close>

theorem breakdown_by_category:
  "map fst (breakdown_table st) = categories st \<and>
   (\<forall>c \<in> set (categories st).
      (c, breakdown_amt st c, breakdown_pct st c) \<in> set (breakdown_table st)) \<and>
   breakdown_pct st c =
     js_mul (slot_div (breakdown_amt st c) (or_one (expenseKRW (totals st)))) (Fin 100) \<and>
   expenseKRW (totals st) = js_sum (map (\<lambda>e. amount_or_zero (e_amount e)) (expenses st)) \<and>
   (c \<notin> set Object_prototype_keys \<and> [e \<leftarrow> expenses st. e_category e = c] = [] \<longrightarrow>
      breakdown_amt st c = SNum (Fin 0) \<and> breakdown_pct st c = Fin 0) \<and>
   (c \<notin> set Object_prototype_keys \<and>
    (\<forall>e \<in> set (expenses st). e_category e = c \<longrightarrow> nonneg_num (amount_or_zero (e_amount e))) \<longrightarrow>
      breakdown_amt st c =
        SNum (js_sum (map (\<lambda>e. amount_or_zero (e_amount e)) [e \<leftarrow> expenses st. e_category e = c]))) \<and>
   (c \<notin> set Object_prototype_keys \<and>
    (\<forall>e \<in> set (expenses st). e_category e = c \<and> nonneg_num (amount_or_zero (e_amount e))) \<and>
    isFinite (expenseKRW (totals st)) \<and> js_gt (expenseKRW (totals st)) (Fin 0) \<longrightarrow>
      breakdown_pct st c = Fin 100) \<and>
   (distinct (categories st) \<and> set (categories st) \<inter> set Object_prototype_keys = {} \<and>
    (\<forall>e \<in> set (expenses st).
       e_category e \<in> set (categories st) \<and> nat_amount (e_amount e)) \<and>
    0 < ledger_total st \<and> ledger_total st < 2 ^ 53 \<longrightarrow>
      (\<forall>k \<in> set (categories st).
         breakdown_amt st k = SNum (Fin (of_int (cat_total st k))) \<and>
         breakdown_pct st k =
           js_mul (js_div (Fin (of_int (cat_total st k))) (Fin (of_int (ledger_total st))))
                  (Fin 100)) \<and>
      expenseKRW (totals st) = Fin (of_int (ledger_total st)) \<and>
      (\<Sum>k\<leftarrow>categories st. of_int (cat_total st k) / of_int (ledger_total st) * 100)
        = (100::rat))"
proof -
  have tab: "map fst (breakdown_table st) = categories st"
    by (simp add: breakdown_table_def comp_def)
  have mem: "\<forall>c \<in> set (categories st).
      (c, breakdown_amt st c, breakdown_pct st c) \<in> set (breakdown_table st)"
    by (auto simp add: breakdown_table_def)
  have pct: "breakdown_pct st c =
     js_mul (slot_div (breakdown_amt st c) (or_one (expenseKRW (totals st)))) (Fin 100)"
    by (simp add: breakdown_pct_def)
  have amt: "breakdown_amt st c =
        SNum (js_sum (map (\<lambda>e. amount_or_zero (e_amount e)) [e \<leftarrow> expenses st. e_category e = c]))"
    if k: "c \<notin> set Object_prototype_keys"
    and n: "\<forall>e \<in> set (expenses st). e_category e = c \<longrightarrow> nonneg_num (amount_or_zero (e_amount e))"
  proof -
    have "\<forall>x \<in> set (map e_amount [e \<leftarrow> expenses st. e_category e = c]). nonneg_num (amount_or_zero x)"
      using n by auto
    from slot_fold_None[OF this] show ?thesis
      by (simp add: breakdown_amt_fold[OF k] comp_def)
  qed
  have zero: "breakdown_amt st c = SNum (Fin 0) \<and> breakdown_pct st c = Fin 0"
    if k: "c \<notin> set Object_prototype_keys" and e: "[e \<leftarrow> expenses st. e_category e = c] = []"
  proof -
    have a: "breakdown_amt st c = SNum (Fin 0)" by (simp add: breakdown_amt_fold[OF k] e)
    show ?thesis using a by (simp add: pct zero_div_or_one round_double_def)
  qed
  have full: "breakdown_pct st c = Fin 100"
    if k: "c \<notin> set Object_prototype_keys"
    and n: "\<forall>e \<in> set (expenses st). e_category e = c \<and> nonneg_num (amount_or_zero (e_amount e))"
    and f: "isFinite (expenseKRW (totals st))" "js_gt (expenseKRW (totals st)) (Fin 0)"
  proof -
    have all: "[e \<leftarrow> expenses st. e_category e = c] = expenses st" using n by (simp add: filter_id_conv)
    have "breakdown_amt st c = SNum (expenseKRW (totals st))"
      using amt[OF k] n by (simp add: all expenseKRW_js_sum)
    then show ?thesis using self_percent[OF f] by (simp add: pct)
  qed
  have exact: "(\<forall>k \<in> set (categories st).
         breakdown_amt st k = SNum (Fin (of_int (cat_total st k))) \<and>
         breakdown_pct st k =
           js_mul (js_div (Fin (of_int (cat_total st k))) (Fin (of_int (ledger_total st))))
                  (Fin 100)) \<and>
      expenseKRW (totals st) = Fin (of_int (ledger_total st)) \<and>
      (\<Sum>k\<leftarrow>categories st. of_int (cat_total st k) / of_int (ledger_total st) * 100)
        = (100::rat)"
    if "distinct (categories st)" "set (categories st) \<inter> set Object_prototype_keys = {}"
       "\<forall>e \<in> set (expenses st). e_category e \<in> set (categories st) \<and> nat_amount (e_amount e)"
       "0 < ledger_total st" "ledger_total st < 2 ^ 53"
    using that by (rule breakdown_exact)
  have first: "map fst (breakdown_table st) = categories st \<and>
   (\<forall>c \<in> set (categories st).
      (c, breakdown_amt st c, breakdown_pct st c) \<in> set (breakdown_table st)) \<and>
   breakdown_pct st c =
     js_mul (slot_div (breakdown_amt st c) (or_one (expenseKRW (totals st)))) (Fin 100) \<and>
   expenseKRW (totals st) = js_sum (map (\<lambda>e. amount_or_zero (e_amount e)) (expenses st))"
    using tab mem pct expenseKRW_js_sum by blast
  show ?thesis using first amt zero full exact by blast
qed


theorem breakdown_by_category_witness:
  "map fst (breakdown_table groceries_page) = DEFAULT_CATEGORIES \<and>
   breakdown_amt groceries_page ''Other'' = SNum (Fin 10000) \<and>
   expenseKRW (totals groceries_page) = Fin 13000 \<and>
   breakdown_amt groceries_page ''Transportation'' = SNum (Fin 0) \<and>
   breakdown_pct groceries_page ''Transportation'' = Fin 0 \<and>
   breakdown_pct half_page ''Other'' = Fin 100 \<and>
   ledger_total groceries_page = 13000 \<and>
   breakdown_pct groceries_page ''Shopping'' = js_mul (js_div (Fin 3000) (Fin 13000)) (Fin 100) \<and>
   (\<Sum>k\<leftarrow>categories groceries_page.
      of_int (cat_total groceries_page k) / of_int (ledger_total groceries_page) * 100)
     = (100::rat)"
proof -
  have k: "''Other'' \<notin> set Object_prototype_keys" "''Transportation'' \<notin> set Object_prototype_keys"
    by (simp_all add: Object_prototype_keys_def)
  have n: "\<forall>e \<in> set (expenses groceries_page).
             e_category e = ''Other'' \<longrightarrow> nonneg_num (amount_or_zero (e_amount e))"
    by (simp add: groceries_page_def exp_row_def nonneg_num_def amount_or_zero_def or_zero_def)
  have none: "[e \<leftarrow> expenses groceries_page. e_category e = ''Transportation''] = []"
    by (simp add: groceries_page_def exp_row_def)
  have s1: "js_sum (map (\<lambda>e. amount_or_zero (e_amount e))
              [e \<leftarrow> expenses groceries_page. e_category e = ''Other'']) = Fin 10000"
    using round_double_int[of 9000] round_double_int[of 10000]
    by (simp add: groceries_page_def exp_row_def js_sum_def amount_or_zero_def or_zero_def)
  have s2: "js_sum (map (\<lambda>e. amount_or_zero (e_amount e)) (expenses groceries_page)) = Fin 13000"
    using round_double_int[of 9000] round_double_int[of 12000] round_double_int[of 13000]
    by (simp add: groceries_page_def exp_row_def js_sum_def amount_or_zero_def or_zero_def)
  have hn: "\<forall>e \<in> set (expenses half_page).
             e_category e = ''Other'' \<and> nonneg_num (amount_or_zero (e_amount e))"
    by (simp add: half_page_def exp_row_def nonneg_num_def amount_or_zero_def or_zero_def)
  have half: "round_double (1 / 2) = Fin (1 / 2)"
    using round_double_exact[of 1 "- 1"] by (simp add: pow2_def)
  have ht: "js_sum (map (\<lambda>e. amount_or_zero (e_amount e)) (expenses half_page)) = Fin (1 / 2)"
    by (simp add: half_page_def exp_row_def js_sum_def amount_or_zero_def or_zero_def half)
  note g1 = breakdown_by_category[where st = groceries_page and c = "''Other''"]
  note g2 = breakdown_by_category[where st = groceries_page and c = "''Transportation''"]
  note h = breakdown_by_category[where st = half_page and c = "''Other''"]
  have c1: "map fst (breakdown_table groceries_page) = DEFAULT_CATEGORIES"
    using g1[THEN conjunct1] by (simp add: groceries_page_def initial_Page_def)
  have c3: "expenseKRW (totals groceries_page) = Fin 13000"
    using g1[THEN conjunct2, THEN conjunct2, THEN conjunct2, THEN conjunct1] s2 by simp
  have c4: "breakdown_amt groceries_page ''Transportation'' = SNum (Fin 0) \<and>
            breakdown_pct groceries_page ''Transportation'' = Fin 0"
    using g2[THEN conjunct2, THEN conjunct2, THEN conjunct2, THEN conjunct2, THEN conjunct1]
      k none by blast
  have c2: "breakdown_amt groceries_page ''Other'' = SNum (Fin 10000)"
    using g1[THEN conjunct2, THEN conjunct2, THEN conjunct2, THEN conjunct2, THEN conjunct2,
        THEN conjunct1] k n s1 by simp
  have hf: "isFinite (expenseKRW (totals half_page)) \<and> js_gt (expenseKRW (totals half_page)) (Fin 0)"
    using h[THEN conjunct2, THEN conjunct2, THEN conjunct2, THEN conjunct1] ht
    by (simp add: js_gt_def)
  have c5: "breakdown_pct half_page ''Other'' = Fin 100"
    using h[THEN conjunct2, THEN conjunct2, THEN conjunct2, THEN conjunct2, THEN conjunct2,
        THEN conjunct2, THEN conjunct1] k hn hf by blast
  have lt: "ledger_total groceries_page = 13000"
    by (simp add: ledger_total_def groceries_page_def exp_row_def amount_int_def)
  have ct: "cat_total groceries_page ''Shopping'' = 3000"
    by (simp add: cat_total_def groceries_page_def exp_row_def amount_int_def)
  have pre: "distinct (categories groceries_page) \<and>
      set (categories groceries_page) \<inter> set Object_prototype_keys = {} \<and>
      (\<forall>e \<in> set (expenses groceries_page).
         e_category e \<in> set (categories groceries_page) \<and> nat_amount (e_amount e)) \<and>
      0 < ledger_total groceries_page \<and> ledger_total groceries_page < 2 ^ 53"
    unfolding lt
    by (simp add: groceries_page_def initial_Page_def exp_row_def DEFAULT_CATEGORIES_def
        Object_prototype_keys_def nat_amount_def)
  note ex = g1[THEN conjunct2, THEN conjunct2, THEN conjunct2, THEN conjunct2, THEN conjunct2,
        THEN conjunct2, THEN conjunct2, rule_format, OF pre]
  have mem: "''Shopping'' \<in> set (categories groceries_page)"
    by (simp add: groceries_page_def initial_Page_def DEFAULT_CATEGORIES_def)
  have c6: "breakdown_pct groceries_page ''Shopping''
            = js_mul (js_div (Fin 3000) (Fin 13000)) (Fin 100)"
    using ex[THEN conjunct1, rule_format, OF mem] by (simp add: lt ct)
  have c7: "(\<Sum>k\<leftarrow>categories groceries_page.
      of_int (cat_total groceries_page k) / of_int (ledger_total groceries_page) * 100)
     = (100::rat)"
    using ex[THEN conjunct2, THEN conjunct2] .
  show ?thesis using c1 c2 c3 c4 c5 lt c6 c7 by simp
qed

text \<open>
  The claim as written fails in four ways: with a total of one half the percentage of
  the code is 100 where amount / max(total, 1) * 100 is 50; with three categories of
  one unit each the percentages add up to a number just below 100; with one expense
  whose category is not in the category set all percentages are 0 although the total is
  positive; and the category named \<^verbatim>\<open>constructor\<close>, with no expense, reports NaN.
\<close>

theorem breakdown_differs_from_claim:
  "breakdown_amt half_page ''Other'' = SNum (Fin (1 / 2)) \<and>
   breakdown_pct half_page ''Other'' = Fin 100 \<and>
   pct_spec (Fin (1 / 2)) (expenseKRW (totals half_page)) = Fin 50 \<and>
   js_gt (expenseKRW (totals thirds_page)) (Fin 0) \<and>
   js_sum (map (breakdown_pct thirds_page) (categories thirds_page))
     = Fin (7036874417766399 / 70368744177664) \<and>
   js_sum (map (breakdown_pct thirds_page) (categories thirds_page)) \<noteq> Fin 100 \<and>
   js_gt (expenseKRW (totals orphan_page)) (Fin 0) \<and>
   js_sum (map (breakdown_pct orphan_page) (categories orphan_page)) = Fin 0 \<and>
   ''constructor'' \<in> set (categories constructor_page) \<and>
   expenses constructor_page = [] \<and>
   breakdown_pct constructor_page ''constructor'' = NaN"
proof -
  have half: "round_double (1 / 2) = Fin (1 / 2)"
    using round_double_exact[of 1 "- 1"] by (simp add: pow2_def)
  have ha: "breakdown_amt half_page ''Other'' = SNum (Fin (1 / 2))"
    by (simp add: half_page_def breakdown_eval half)
  have ht: "expenseKRW (totals half_page) = Fin (1 / 2)"
    by (simp add: expenseKRW_totals half_page_def breakdown_eval half)
  have hp: "breakdown_pct half_page ''Other'' = Fin 100"
    using round_double_int[of 1] round_double_int[of 100]
    by (simp add: breakdown_pct_def ha ht or_one_def)
  have hs: "pct_spec (Fin (1 / 2)) (expenseKRW (totals half_page)) = Fin 50"
    using round_double_int[of 50] by (simp add: pct_spec_def ht half)
  have one: "round_double 1 = Fin 1" using round_double_int[of 1] by simp
  have tt: "expenseKRW (totals thirds_page) = Fin 3"
    using round_double_int[of 2] round_double_int[of 3]
    by (simp add: expenseKRW_totals thirds_page_def breakdown_eval one)
  have amt1: "breakdown_amt thirds_page c = SNum (Fin 1)"
    if "c \<in> {''Entertainment'', ''Shopping'', ''Other''}" for c
    using that by (auto simp add: thirds_page_def breakdown_eval one)
  have amt0: "breakdown_amt thirds_page c = SNum (Fin 0)"
    if "c \<in> {''Room and Utility'', ''Daily Expense'', ''Borrow Others'', ''Food & Drinks'',
              ''Transportation''}" for c
  proof -
    have k: "c \<notin> set Object_prototype_keys"
      using that by (auto simp add: Object_prototype_keys_def)
    have "[e \<leftarrow> expenses thirds_page. e_category e = c] = []"
      using that by (auto simp add: thirds_page_def exp_row_def)
    then show ?thesis by (simp add: breakdown_amt_fold[OF k])
  qed
  have or3: "or_one (Fin 3) = Fin 3" by (simp add: or_one_def)
  have third: "js_div (Fin 1) (Fin 3) = Fin (6004799503160661 / 18014398509481984)"
  proof -
    have "round_pos (1 / 3) = Fin (of_int 6004799503160661 * pow2 (- 2 - 52))"
      by (rule round_pos_eval) (simp_all add: pow2_def power_int_minus)
    then show ?thesis by (simp add: round_double_def pow2_def power_int_minus)
  qed
  have third_percent: "js_mul (Fin (6004799503160661 / 18014398509481984)) (Fin 100)
     = Fin (2345624805922133 / 70368744177664)"
  proof -
    have "round_pos (6004799503160661 / 18014398509481984 * 100)
          = Fin (of_int 4691249611844266 * pow2 (5 - 52))"
      by (rule round_pos_eval) (simp_all add: pow2_def power_int_minus)
    then show ?thesis by (simp add: round_double_def pow2_def power_int_minus)
  qed
  have zero: "js_mul (js_div (Fin 0) (Fin 3)) (Fin 100) = Fin 0" by (simp add: round_double_def)
  have pct1: "breakdown_pct thirds_page c = Fin (2345624805922133 / 70368744177664)"
    if "c \<in> {''Entertainment'', ''Shopping'', ''Other''}" for c
    by (simp only: breakdown_pct_def amt1[OF that] tt or3 slot_div.simps third third_percent)
  have pct0: "breakdown_pct thirds_page c = Fin 0"
    if "c \<in> {''Room and Utility'', ''Daily Expense'', ''Borrow Others'', ''Food & Drinks'',
              ''Transportation''}" for c
    by (simp only: breakdown_pct_def amt0[OF that] tt or3 slot_div.simps zero)
  have cats: "categories thirds_page = [''Room and Utility'', ''Daily Expense'', ''Borrow Others'',
      ''Food & Drinks'', ''Transportation'', ''Entertainment'', ''Shopping'', ''Other'']"
    by (simp add: thirds_page_def initial_Page_def DEFAULT_CATEGORIES_def)
  have pcts: "map (breakdown_pct thirds_page) (categories thirds_page) =
     [Fin 0, Fin 0, Fin 0, Fin 0, Fin 0, Fin (2345624805922133 / 70368744177664),
           Fin (2345624805922133 / 70368744177664), Fin (2345624805922133 / 70368744177664)]"
    unfolding cats by (simp add: pct0 pct1)
  have sum: "js_sum (map (breakdown_pct thirds_page) (categories thirds_page))
     = Fin (7036874417766399 / 70368744177664)"
    unfolding pcts by (rule thirds_sum)
  have ca: "breakdown_amt constructor_page ''constructor'' = SOther"
    by (simp add: constructor_page_eq breakdown_eval)
  have cp: "breakdown_pct constructor_page ''constructor'' = NaN"
    by (simp add: breakdown_pct_def ca)
  have ot: "expenseKRW (totals orphan_page) = Fin 35000"
    using round_double_int[of 35000]
    by (simp add: expenseKRW_totals orphan_page_eq initial_Page_def amount_or_zero_def
        or_zero_def)
  have op: "breakdown_pct orphan_page k = Fin 0" if "k \<in> set DEFAULT_CATEGORIES" for k
  proof -
    have nk: "k \<notin> set Object_prototype_keys"
      using that by (auto simp add: DEFAULT_CATEGORIES_def Object_prototype_keys_def)
    have "[e \<leftarrow> expenses orphan_page. e_category e = k] = []"
      using that by (auto simp add: orphan_page_eq initial_Page_def DEFAULT_CATEGORIES_def)
    then show ?thesis by (rule breakdown_unused_category[OF nk])
  qed
  have oc: "categories orphan_page = DEFAULT_CATEGORIES"
    by (simp add: orphan_page_eq initial_Page_def)
  have "map (breakdown_pct orphan_page) (categories orphan_page)
        = map (\<lambda>k. Fin 0) DEFAULT_CATEGORIES"
    unfolding oc by (rule map_cong) (simp_all add: op)
  then have os: "js_sum (map (breakdown_pct orphan_page) (categories orphan_page)) = Fin 0"
    by (simp add: js_sum_def DEFAULT_CATEGORIES_def round_double_def)
  show ?thesis
    using ha hp hs tt sum cp ot os
    by (simp add: js_gt_def constructor_page_eq initial_Page_def)
qed

end
